theory Spec2Isabelle
  imports Complex_Main
begin

section \<open>Tensors and the tensor operations used by \<^verbatim>\<open>layers.py\<close>\<close>

text \<open>
  A tensor is its shape together with its entries, read by multi-index. Only the
  entries at indices inside the shape are meaningful. Entries are real numbers:
  the development is about exact arithmetic, not about floating point rounding.
  A quotient with divisor zero is a number here and an infinity in the library; in
  neither is it an exception, and the theorems about the values of the normalization
  take a nonnegative matrix, whose divisors are at least 1.
\<close>

datatype tensor = Tensor (shape: "nat list") (entry: "nat list \<Rightarrow> real")

text \<open>The exceptions that the modelled code can raise.\<close>

datatype error = AssertionError | AttributeError | RuntimeError | IndexError

definition bind_r :: "error + 'a \<Rightarrow> ('a \<Rightarrow> error + 'b) \<Rightarrow> error + 'b" where
  "bind_r m f = (case m of Inl e \<Rightarrow> Inl e | Inr v \<Rightarrow> f v)"

text \<open>All multi-indices inside a shape, in row-major order.\<close>

fun indices :: "nat list \<Rightarrow> nat list list" where
  "indices [] = [[]]"
| "indices (n # s) = concat (map (\<lambda>i. map ((#) i) (indices s)) [0..<n])"

definition to_list :: "tensor \<Rightarrow> real list" where
  "to_list t = map (entry t) (indices (shape t))"

text \<open>Two tensors are equal when they have the same shape and the same entries inside it.\<close>

definition tensor_eq :: "tensor \<Rightarrow> tensor \<Rightarrow> bool" where
  "tensor_eq s t = (shape s = shape t \<and> to_list s = to_list t)"

text \<open>A tensor written out: its shape and its entries in row-major order.\<close>

definition flat_index :: "nat list \<Rightarrow> nat list \<Rightarrow> nat" where
  "flat_index s i = foldl (\<lambda>acc (d, j). acc * d + j) 0 (zip s i)"

definition tensor_of :: "nat list \<Rightarrow> real list \<Rightarrow> tensor" where
  "tensor_of s xs = Tensor s (\<lambda>i. xs ! flat_index s i)"

definition sum_upto :: "nat \<Rightarrow> (nat \<Rightarrow> real) \<Rightarrow> real" where
  "sum_upto n f = sum_list (map f [0..<n])"

subsection \<open>Broadcasting\<close>

text \<open>
  Shapes are aligned at their last axis; two sizes are compatible when they are equal
  or one of them is 1. \<open>bc_rev\<close> works on the reversed shapes.
\<close>

fun bc_rev :: "nat list \<Rightarrow> nat list \<Rightarrow> nat list option" where
  "bc_rev [] ys = Some ys"
| "bc_rev (x # xs) [] = Some (x # xs)"
| "bc_rev (x # xs) (y # ys) =
     (if x = y \<or> y = 1 then map_option ((#) x) (bc_rev xs ys)
      else if x = 1 then map_option ((#) y) (bc_rev xs ys)
      else None)"

definition broadcast_shapes :: "nat list \<Rightarrow> nat list \<Rightarrow> nat list option" where
  "broadcast_shapes s t = map_option rev (bc_rev (rev s) (rev t))"

text \<open>The index of an operand of shape \<open>s\<close> that a result index \<open>i\<close> reads.\<close>

definition bc_index :: "nat list \<Rightarrow> nat list \<Rightarrow> nat list" where
  "bc_index s i = map2 (\<lambda>d j. if d = 1 then 0 else j) s (drop (length i - length s) i)"

text \<open>An elementwise binary operation on two tensors, with broadcasting.\<close>

definition tensor_binop :: "(real \<Rightarrow> real \<Rightarrow> real) \<Rightarrow> tensor \<Rightarrow> tensor \<Rightarrow> error + tensor" where
  "tensor_binop f a b =
     (case broadcast_shapes (shape a) (shape b) of
        None \<Rightarrow> Inl RuntimeError
      | Some s \<Rightarrow> Inr (Tensor s (\<lambda>i. f (entry a (bc_index (shape a) i)) (entry b (bc_index (shape b) i)))))"

definition tensor_add :: "tensor \<Rightarrow> tensor \<Rightarrow> error + tensor" where
  "tensor_add a b = tensor_binop (+) a b"

definition tensor_sub :: "tensor \<Rightarrow> tensor \<Rightarrow> error + tensor" where
  "tensor_sub a b = tensor_binop (-) a b"

definition tensor_mul :: "tensor \<Rightarrow> tensor \<Rightarrow> error + tensor" where
  "tensor_mul a b = tensor_binop (*) a b"

text \<open>In-place addition \<^verbatim>\<open>a += b\<close>: the result must have the shape of \<open>a\<close>.\<close>

definition tensor_iadd :: "tensor \<Rightarrow> tensor \<Rightarrow> error + tensor" where
  "tensor_iadd a b =
     (if broadcast_shapes (shape a) (shape b) = Some (shape a)
      then Inr (Tensor (shape a) (\<lambda>i. entry a i + entry b (bc_index (shape b) i)))
      else Inl RuntimeError)"

text \<open>A Python number combined with a tensor: \<^verbatim>\<open>c * t\<close>, \<^verbatim>\<open>c + t\<close>, \<^verbatim>\<open>c / t\<close>.\<close>

definition tensor_map :: "(real \<Rightarrow> real) \<Rightarrow> tensor \<Rightarrow> tensor" where
  "tensor_map f t = Tensor (shape t) (\<lambda>i. f (entry t i))"

definition scalar_mul :: "real \<Rightarrow> tensor \<Rightarrow> tensor" where
  "scalar_mul c t = tensor_map (\<lambda>v. c * v) t"

definition scalar_add :: "real \<Rightarrow> tensor \<Rightarrow> tensor" where
  "scalar_add c t = tensor_map (\<lambda>v. c + v) t"

definition scalar_div :: "real \<Rightarrow> tensor \<Rightarrow> tensor" where
  "scalar_div c t = tensor_map (\<lambda>v. c / v) t"

subsection \<open>Library operations\<close>

text \<open>\<^verbatim>\<open>torch.eye(n)\<close>.\<close>

definition torch_eye :: "nat \<Rightarrow> tensor" where
  "torch_eye n = Tensor [n, n] (\<lambda>i. if i ! 0 = i ! 1 then 1 else 0)"

text \<open>\<^verbatim>\<open>torch.stack\<close> of a list of tensors along a new first axis; an empty list is refused.\<close>

definition torch_stack :: "tensor list \<Rightarrow> error + tensor" where
  "torch_stack ts =
     (case ts of
        [] \<Rightarrow> Inl RuntimeError
      | t # _ \<Rightarrow>
          if list_all (\<lambda>u. shape u = shape t) ts
          then Inr (Tensor (length ts # shape t) (\<lambda>i. entry (ts ! hd i) (tl i)))
          else Inl RuntimeError)"

text \<open>\<^verbatim>\<open>torch.sum(t, dim=d)\<close> for an axis \<open>d\<close> of \<open>t\<close>.\<close>

definition torch_sum :: "tensor \<Rightarrow> nat \<Rightarrow> tensor" where
  "torch_sum t d =
     Tensor (take d (shape t) @ drop (Suc d) (shape t))
            (\<lambda>i. sum_upto (shape t ! d) (\<lambda>j. entry t (take d i @ [j] @ drop d i)))"

text \<open>
  \<^verbatim>\<open>torch.diag_embed(v)\<close>: the last axis of \<open>v\<close> becomes the diagonal of a square
  matrix. \<^verbatim>\<open>torch.diag(v)\<close> of a vector is the same operation.
\<close>

definition torch_diag_embed :: "tensor \<Rightarrow> tensor" where
  "torch_diag_embed v =
     Tensor (shape v @ [last (shape v)])
            (\<lambda>i. if last i = last (butlast i) then entry v (butlast i) else 0)"

definition torch_diag :: "tensor \<Rightarrow> tensor" where
  "torch_diag v = torch_diag_embed v"

text \<open>
  \<^verbatim>\<open>torch.matmul(a, b)\<close> (also written \<^verbatim>\<open>a @ b\<close>) with a first operand of rank at
  least 2, which is the only way the code calls it. A second operand of rank 1 is a
  vector, multiplied by every matrix of \<open>a\<close>; otherwise the leading (batch) axes are
  broadcast and the last two axes are multiplied as matrices.
\<close>

definition torch_matmul :: "tensor \<Rightarrow> tensor \<Rightarrow> error + tensor" where
  "torch_matmul a b =
     (let ra = length (shape a); rb = length (shape b) in
      if ra < 2 \<or> rb = 0 then Inl RuntimeError
      else
        let ba = take (ra - 2) (shape a); n = shape a ! (ra - 2); m = shape a ! (ra - 1) in
        if rb = 1 then
          (if shape b ! 0 = m
           then Inr (Tensor (ba @ [n])
                  (\<lambda>i. sum_upto m (\<lambda>k. entry a (i @ [k]) * entry b [k])))
           else Inl RuntimeError)
        else
          let bb = take (rb - 2) (shape b); m' = shape b ! (rb - 2); p = shape b ! (rb - 1) in
          if m \<noteq> m' then Inl RuntimeError
          else
            (case broadcast_shapes ba bb of
               None \<Rightarrow> Inl RuntimeError
             | Some bs \<Rightarrow>
                 Inr (Tensor (bs @ [n, p])
                   (\<lambda>i. let r = length bs; bi = take r i; row = i ! r; col = i ! Suc r in
                        sum_upto m (\<lambda>k. entry a (bc_index ba bi @ [row, k])
                                        * entry b (bc_index bb bi @ [k, col]))))))"

text \<open>\<^verbatim>\<open>t.permute(0, 2, 1)\<close>: only a tensor of rank 3 has three axes to permute.\<close>

definition permute_021 :: "tensor \<Rightarrow> error + tensor" where
  "permute_021 t =
     (if length (shape t) = 3
      then Inr (Tensor [shape t ! 0, shape t ! 2, shape t ! 1] (\<lambda>i. entry t [i ! 0, i ! 2, i ! 1]))
      else Inl RuntimeError)"

text \<open>\<^verbatim>\<open>torch.bmm(a, b)\<close>: both operands of rank 3, no broadcasting.\<close>

definition torch_bmm :: "tensor \<Rightarrow> tensor \<Rightarrow> error + tensor" where
  "torch_bmm a b =
     (if length (shape a) = 3 \<and> length (shape b) = 3
         \<and> shape a ! 0 = shape b ! 0 \<and> shape a ! 2 = shape b ! 1
      then Inr (Tensor [shape a ! 0, shape a ! 1, shape b ! 2]
             (\<lambda>i. sum_upto (shape a ! 2)
                    (\<lambda>k. entry a [i ! 0, i ! 1, k] * entry b [i ! 0, k, i ! 2])))
      else Inl RuntimeError)"

section \<open>The shared adjacency normalization\<close>

text \<open>
  \<^verbatim>\<open>InformationPropagtionLayer.norm_adj\<close> (lines 167-180). The assertion on the rank
  comes first; the statements after it run in the order of the source.
\<close>

definition InformationPropagtionLayer_norm_adj :: "tensor \<Rightarrow> error + tensor" where
  "InformationPropagtionLayer_norm_adj A =
     (if \<not> (length (shape A) = 3 \<or> length (shape A) = 2) then Inl AssertionError
      else if length (shape A) = 3 then
        bind_r (torch_stack (map (\<lambda>_. torch_eye (shape A ! 1)) [0..<shape A ! 0])) (\<lambda>eyes.
          let D_tilde_inv = torch_diag_embed (scalar_div 1 (scalar_add 1 (torch_sum A 2))) in
          bind_r (tensor_add A eyes) (\<lambda>AI. torch_matmul D_tilde_inv AI))
      else
        (let eye = torch_eye (shape A ! 1);
             D_tilde_inv = torch_diag (scalar_div 1 (scalar_add 1 (torch_sum A 1))) in
         bind_r (tensor_add A eye) (\<lambda>AI. torch_matmul D_tilde_inv AI)))"

text \<open>\<^verbatim>\<open>GraphConvolutionModule.norm_adj\<close> (lines 222-235), a second copy of the same code.\<close>

definition GraphConvolutionModule_norm_adj :: "tensor \<Rightarrow> error + tensor" where
  "GraphConvolutionModule_norm_adj A =
     (if \<not> (length (shape A) = 3 \<or> length (shape A) = 2) then Inl AssertionError
      else if length (shape A) = 3 then
        bind_r (torch_stack (map (\<lambda>_. torch_eye (shape A ! 1)) [0..<shape A ! 0])) (\<lambda>eyes.
          let D_tilde_inv = torch_diag_embed (scalar_div 1 (scalar_add 1 (torch_sum A 2))) in
          bind_r (tensor_add A eyes) (\<lambda>AI. torch_matmul D_tilde_inv AI))
      else
        (let eye = torch_eye (shape A ! 1);
             D_tilde_inv = torch_diag (scalar_div 1 (scalar_add 1 (torch_sum A 1))) in
         bind_r (tensor_add A eye) (\<lambda>AI. torch_matmul D_tilde_inv AI)))"


section \<open>The information propagation layer\<close>

text \<open>
  \<^verbatim>\<open>InformationPropagtionLayer.forward(x, h_in, A_inter, beta=0.5)\<close> (lines 151-165).
  The layer has no parameters. A caller that leaves \<open>beta\<close> out gets the default.
\<close>

datatype InformationPropagtionLayer = InformationPropagtionLayer

definition default_beta :: real where
  "default_beta = 1 / 2"

definition InformationPropagtionLayer_forward ::
    "tensor \<Rightarrow> tensor \<Rightarrow> tensor \<Rightarrow> real \<Rightarrow> error + tensor" where
  "InformationPropagtionLayer_forward x h_in A_inter beta =
     bind_r (InformationPropagtionLayer_norm_adj A_inter) (\<lambda>A_i.
     bind_r (torch_matmul A_i x) (\<lambda>h.
     tensor_add (scalar_mul beta h_in) (scalar_mul (1 - beta) h)))"

section \<open>The graph convolution module\<close>

text \<open>
  \<^verbatim>\<open>nn.Conv2d(c_in, c_out, 1, 1, 0, 1, 1)\<close>: a 1x1 convolution with stride 1, no
  padding, dilation 1 and one group, on a batched input of rank 4 and non-empty axes.
  A layer built with \<^verbatim>\<open>bias=False\<close> is one whose bias is zero.
\<close>

record Conv2d =
  in_channels :: nat
  out_channels :: nat
  weight :: "nat \<Rightarrow> nat \<Rightarrow> real"
  bias :: "nat \<Rightarrow> real"

definition Conv2d_forward :: "Conv2d \<Rightarrow> tensor \<Rightarrow> error + tensor" where
  "Conv2d_forward cv x =
     (if length (shape x) = 4 \<and> shape x ! 1 = in_channels cv
      then Inr (Tensor [shape x ! 0, out_channels cv, shape x ! 2, shape x ! 3]
             (\<lambda>i. bias cv (i ! 1)
                  + sum_upto (in_channels cv) (\<lambda>c. weight cv (i ! 1) c * entry x [i ! 0, c, i ! 2, i ! 3])))
      else Inl RuntimeError)"

text \<open>
  The module keeps its layers as attributes \<^verbatim>\<open>gcl1..gclk\<close> and
  \<^verbatim>\<open>info_select0..info_selectk\<close>, set by name in \<^verbatim>\<open>__init__\<close> and looked up by
  name in \<^verbatim>\<open>forward\<close>: two maps from the number in the name to the layer. The hop
  count is a natural number (the claims are about \<open>k \<ge> 0\<close>).
\<close>

record GraphConvolutionModule =
  gcl :: "nat \<rightharpoonup> InformationPropagtionLayer"
  info_select :: "nat \<rightharpoonup> Conv2d"
  in_features :: nat
  out_features :: nat
  hops :: nat

text \<open>
  \<^verbatim>\<open>GraphConvolutionModule.__init__(in_features, out_features, k)\<close> (lines 193-204).
  The initial weights of the projections are drawn by the library; here the caller
  supplies them (\<open>W i\<close> and \<open>b i\<close> for \<^verbatim>\<open>info_select{i}\<close>).
\<close>

definition GraphConvolutionModule_init ::
    "nat \<Rightarrow> nat \<Rightarrow> nat \<Rightarrow> (nat \<Rightarrow> nat \<Rightarrow> nat \<Rightarrow> real) \<Rightarrow> (nat \<Rightarrow> nat \<Rightarrow> real) \<Rightarrow> GraphConvolutionModule" where
  "GraphConvolutionModule_init in_f out_f k W b =
     \<lparr> gcl = foldl (\<lambda>m i. m(i \<mapsto> InformationPropagtionLayer)) Map.empty [1..<k + 1],
       info_select = foldl (\<lambda>m i. m(i \<mapsto>
           \<lparr> in_channels = out_f, out_channels = out_f, weight = W i, bias = b i \<rparr>)) Map.empty [0..<k + 1],
       in_features = in_f, out_features = out_f, hops = k \<rparr>"

text \<open>\<^verbatim>\<open>getattr(self, name)\<close>: a missing attribute raises.\<close>

definition getattr :: "(nat \<rightharpoonup> 'a) \<Rightarrow> nat \<Rightarrow> error + 'a" where
  "getattr attrs i = (case attrs i of None \<Rightarrow> Inl AttributeError | Some v \<Rightarrow> Inr v)"

text \<open>
  The loop of lines 212-215 over \<^verbatim>\<open>range(2, k+1)\<close>; its state is the evolving
  matrix \<^verbatim>\<open>A_tilde\<close> and the list \<^verbatim>\<open>hiddens\<close>.
\<close>

fun hop_loop :: "GraphConvolutionModule \<Rightarrow> tensor \<Rightarrow> tensor \<Rightarrow> real \<Rightarrow> nat list
    \<Rightarrow> tensor \<times> tensor list \<Rightarrow> error + tensor \<times> tensor list" where
  "hop_loop self x A beta [] st = Inr st"
| "hop_loop self x A beta (i # is) (A_tilde, hiddens) =
     bind_r (getattr (gcl self) i) (\<lambda>_.
     bind_r (permute_021 A_tilde) (\<lambda>P.
     bind_r (torch_bmm P A) (\<lambda>A_tilde'.
     bind_r (InformationPropagtionLayer_forward (last hiddens) x A_tilde' beta) (\<lambda>h.
     hop_loop self x A beta is (A_tilde', hiddens @ [h])))))"

text \<open>
  Lines 207-215 of \<^verbatim>\<open>GraphConvolutionModule.forward(x, A, beta=0.5)\<close>: the list
  \<^verbatim>\<open>hiddens\<close> once the hops are done. The call for hop 1 passes no \<open>beta\<close>.
\<close>

definition GraphConvolutionModule_hiddens ::
    "GraphConvolutionModule \<Rightarrow> tensor \<Rightarrow> tensor \<Rightarrow> real \<Rightarrow> error + tensor list" where
  "GraphConvolutionModule_hiddens self x A beta =
     bind_r (GraphConvolutionModule_norm_adj A) (\<lambda>A_tilde.
     bind_r (getattr (gcl self) 1) (\<lambda>_.
     bind_r (InformationPropagtionLayer_forward (last [x]) x A_tilde default_beta) (\<lambda>h1.
     bind_r (hop_loop self x A beta [2..<hops self + 1] (A_tilde, [x, h1])) (\<lambda>(_, hiddens).
     Inr hiddens))))"

text \<open>
  The loop of lines 216-219. \<^verbatim>\<open>out\<close> starts as the Python integer 0, here
  \<open>None\<close>; adding the first projected state to it gives a tensor, and the later
  additions are in place.
\<close>

fun select_loop :: "GraphConvolutionModule \<Rightarrow> tensor list \<Rightarrow> nat list \<Rightarrow> tensor option
    \<Rightarrow> error + tensor option" where
  "select_loop self hiddens [] out = Inr out"
| "select_loop self hiddens (i # is) out =
     bind_r (getattr (info_select self) i) (\<lambda>cv.
     if i < length hiddens then
       bind_r (Conv2d_forward cv (hiddens ! i)) (\<lambda>y.
       bind_r (case out of None \<Rightarrow> Inr (scalar_add 0 y) | Some t \<Rightarrow> tensor_iadd t y) (\<lambda>out'.
       select_loop self hiddens is (Some out')))
     else Inl IndexError)"

definition GraphConvolutionModule_forward ::
    "GraphConvolutionModule \<Rightarrow> tensor \<Rightarrow> tensor \<Rightarrow> real \<Rightarrow> error + tensor option" where
  "GraphConvolutionModule_forward self x A beta =
     bind_r (GraphConvolutionModule_hiddens self x A beta) (\<lambda>hiddens.
     select_loop self hiddens [0..<hops self + 1] None)"

section \<open>The adjacency constructor\<close>

text \<open>
  \<^verbatim>\<open>nn.Embedding\<close>: a table with one row per node; looking up an index outside
  the table raises. The index tensor is a list of integers.
\<close>

record Embedding =
  num_embeddings :: nat
  embedding_dim :: nat
  table :: "nat \<Rightarrow> nat \<Rightarrow> real"

definition Embedding_forward :: "Embedding \<Rightarrow> int list \<Rightarrow> error + tensor" where
  "Embedding_forward e idx =
     (if list_all (\<lambda>j. 0 \<le> j \<and> j < int (num_embeddings e)) idx
      then Inr (Tensor [length idx, embedding_dim e] (\<lambda>i. table e (nat (idx ! (i ! 0))) (i ! 1)))
      else Inl IndexError)"

text \<open>\<^verbatim>\<open>nn.Linear\<close>: \<open>y = x W\<^sup>T + b\<close> along the last axis.\<close>

record Linear =
  in_dim :: nat
  out_dim :: nat
  lin_weight :: "nat \<Rightarrow> nat \<Rightarrow> real"
  lin_bias :: "nat \<Rightarrow> real"

definition Linear_forward :: "Linear \<Rightarrow> tensor \<Rightarrow> error + tensor" where
  "Linear_forward l x =
     (if shape x \<noteq> [] \<and> last (shape x) = in_dim l
      then Inr (Tensor (butlast (shape x) @ [out_dim l])
             (\<lambda>i. sum_upto (in_dim l) (\<lambda>c. entry x (butlast i @ [c]) * lin_weight l (last i) c)
                  + lin_bias l (last i)))
      else Inl RuntimeError)"

text \<open>\<^verbatim>\<open>t.T\<close> reverses the axes; \<^verbatim>\<open>torch.tanh\<close>, \<^verbatim>\<open>torch.relu\<close> and \<^verbatim>\<open>torch.zeros\<close>.\<close>

definition tensor_T :: "tensor \<Rightarrow> tensor" where
  "tensor_T t = Tensor (rev (shape t)) (\<lambda>i. entry t (rev i))"

definition torch_tanh :: "tensor \<Rightarrow> tensor" where
  "torch_tanh t = tensor_map tanh t"

definition torch_relu :: "tensor \<Rightarrow> tensor" where
  "torch_relu t = tensor_map (max 0) t"

definition torch_zeros :: "nat list \<Rightarrow> tensor" where
  "torch_zeros s = Tensor s (\<lambda>_. 0)"

text \<open>
  The random number generator is a sequence of samples of \<open>[0, 1)\<close> and a position
  in it. \<^verbatim>\<open>torch.rand_like(t)\<close> takes as many samples as \<open>t\<close> has entries and
  moves the position on.
\<close>

datatype rng = Rng (position: nat) (samples: "nat \<Rightarrow> real")

definition torch_rand_like :: "rng \<Rightarrow> tensor \<Rightarrow> tensor \<times> rng" where
  "torch_rand_like g t =
     (Tensor (shape t) (\<lambda>i. samples g (position g + flat_index (shape t) i)),
      Rng (position g + prod_list (shape t)) (samples g))"

text \<open>
  \<^verbatim>\<open>t.topk(k, 1)\<close> on a matrix: for every row the \<open>k\<close> largest values, largest
  first, and their column indices; \<open>k\<close> larger than the row length is refused.
  Among equal values the lower column comes first (the library leaves this order
  open; the theorems below hold whatever it is, except where they say so).
\<close>

definition topk_row :: "real list \<Rightarrow> nat \<Rightarrow> nat list" where
  "topk_row row k = take k (sort_key (\<lambda>j. - (row ! j)) [0..<length row])"

definition torch_topk :: "tensor \<Rightarrow> nat \<Rightarrow> error + tensor \<times> nat list list" where
  "torch_topk t k =
     (if length (shape t) = 2 \<and> k \<le> shape t ! 1
      then
        (let t1 = map (\<lambda>r. topk_row (map (\<lambda>c. entry t [r, c]) [0..<shape t ! 1]) k) [0..<shape t ! 0]
         in Inr (Tensor [shape t ! 0, k] (\<lambda>i. entry t [i ! 0, t1 ! (i ! 0) ! (i ! 1)]), t1))
      else Inl RuntimeError)"

text \<open>\<^verbatim>\<open>t.fill_(v)\<close>.\<close>

definition fill :: "tensor \<Rightarrow> real \<Rightarrow> tensor" where
  "fill t v = Tensor (shape t) (\<lambda>_. v)"

text \<open>
  \<^verbatim>\<open>mask.scatter_(1, index, src)\<close> on matrices: entry \<open>(r, j)\<close> of \<open>src\<close> is written
  to entry \<open>(r, index[r][j])\<close> of the mask. Where several \<open>j\<close> name one column the
  first is taken; with the indices of \<open>topk\<close> they are distinct.
\<close>

definition scatter_1 :: "tensor \<Rightarrow> nat list list \<Rightarrow> tensor \<Rightarrow> tensor" where
  "scatter_1 msk index src =
     Tensor (shape msk)
       (\<lambda>i. if i ! 0 < length index
            then (case find (\<lambda>j. index ! (i ! 0) ! j = i ! 1) [0..<length (index ! (i ! 0))] of
                    None \<Rightarrow> entry msk i
                  | Some j \<Rightarrow> entry src [i ! 0, j])
            else entry msk i)"

text \<open>
  \<^verbatim>\<open>AdjConstructor\<close> (lines 112-142). \<^verbatim>\<open>training\<close> is the mode flag that every
  \<^verbatim>\<open>nn.Module\<close> carries.
\<close>

record AdjConstructor =
  emb1 :: Embedding
  emb2 :: Embedding
  theta1 :: Linear
  theta2 :: Linear
  alpha :: real
  top_k :: nat
  training :: bool

text \<open>
  \<^verbatim>\<open>AdjConstructor.__init__(n_nodes, embedding_dim, alpha, top_k)\<close>; the initial
  tables and weights are supplied by the caller, and a new module is in training mode.
\<close>

definition AdjConstructor_init ::
    "nat \<Rightarrow> nat \<Rightarrow> real \<Rightarrow> nat \<Rightarrow> (nat \<Rightarrow> nat \<Rightarrow> real) \<Rightarrow> (nat \<Rightarrow> nat \<Rightarrow> real)
     \<Rightarrow> (nat \<Rightarrow> nat \<Rightarrow> real) \<Rightarrow> (nat \<Rightarrow> real) \<Rightarrow> (nat \<Rightarrow> nat \<Rightarrow> real) \<Rightarrow> (nat \<Rightarrow> real) \<Rightarrow> AdjConstructor" where
  "AdjConstructor_init n_nodes d al tk E1 E2 W1 b1 W2 b2 =
     \<lparr> emb1 = \<lparr> num_embeddings = n_nodes, embedding_dim = d, table = E1 \<rparr>,
       emb2 = \<lparr> num_embeddings = n_nodes, embedding_dim = d, table = E2 \<rparr>,
       theta1 = \<lparr> in_dim = d, out_dim = d, lin_weight = W1, lin_bias = b1 \<rparr>,
       theta2 = \<lparr> in_dim = d, out_dim = d, lin_weight = W2, lin_bias = b2 \<rparr>,
       alpha = al, top_k = tk, training = True \<rparr>"

text \<open>Line 133: the score matrix before masking.\<close>

definition AdjConstructor_scores :: "AdjConstructor \<Rightarrow> int list \<Rightarrow> error + tensor" where
  "AdjConstructor_scores self idx =
     bind_r (Embedding_forward (emb1 self) idx) (\<lambda>e1.
     bind_r (Embedding_forward (emb2 self) idx) (\<lambda>e2.
     bind_r (Linear_forward (theta1 self) e1) (\<lambda>l1.
     let e1' = torch_tanh (scalar_mul (alpha self) l1) in
     bind_r (Linear_forward (theta2 self) e2) (\<lambda>l2.
     let e2' = torch_tanh (scalar_mul (alpha self) l2) in
     bind_r (torch_matmul e1' (tensor_T e2')) (\<lambda>m12.
     bind_r (torch_matmul e2' (tensor_T e1')) (\<lambda>m21.
     bind_r (tensor_sub m12 m21) (\<lambda>d.
     Inr (torch_relu (torch_tanh (scalar_mul (alpha self) d))))))))))"

text \<open>
  \<^verbatim>\<open>AdjConstructor.forward(idx)\<close> (lines 126-142), with the generator's state
  passed in and returned.
\<close>

definition AdjConstructor_forward :: "AdjConstructor \<Rightarrow> rng \<Rightarrow> int list \<Rightarrow> (error + tensor) \<times> rng" where
  "AdjConstructor_forward self g idx =
     (case AdjConstructor_scores self idx of
        Inl e \<Rightarrow> (Inl e, g)
      | Inr adj_mat \<Rightarrow>
          let msk = fill (torch_zeros [length idx, length idx]) 0 in
          if training self then
            (let (r, g') = torch_rand_like g adj_mat in
             (bind_r (tensor_add adj_mat (scalar_mul (1 / 100) r)) (\<lambda>noisy.
              bind_r (torch_topk noisy (top_k self)) (\<lambda>(s1, t1).
              tensor_mul adj_mat (scatter_1 msk t1 (fill s1 1)))), g'))
          else
            (bind_r (torch_topk adj_mat (top_k self)) (\<lambda>(s1, t1).
             tensor_mul adj_mat (scatter_1 msk t1 (fill s1 1))), g))"

section \<open>Properties of tensors that the theorems speak about\<close>

text \<open>All entries nonnegative; the sums along the last axis, one per row.\<close>

definition nonneg :: "tensor \<Rightarrow> bool" where
  "nonneg t = list_all (\<lambda>v. 0 \<le> v) (to_list t)"

definition row_sums :: "tensor \<Rightarrow> real list" where
  "row_sums t = map (\<lambda>i. sum_upto (last (shape t)) (\<lambda>j. entry t (i @ [j]))) (indices (butlast (shape t)))"

text \<open>
  What the normalization is said to compute: the identity is added to \<open>A\<close> and every
  row is divided by one plus the row sum of the original \<open>A\<close>.
\<close>

definition self_loop_normalized :: "tensor \<Rightarrow> tensor" where
  "self_loop_normalized A =
     Tensor (shape A)
       (\<lambda>i. (entry A i + (if last i = last (butlast i) then 1 else 0))
            / (1 + sum_upto (last (shape A)) (\<lambda>l. entry A (butlast i @ [l]))))"

text \<open>Two results are the same when both are tensors, equal in shape and entries.\<close>

definition result_eq :: "error + tensor \<Rightarrow> error + tensor \<Rightarrow> bool" where
  "result_eq r s = (case (r, s) of (Inr t, Inr u) \<Rightarrow> tensor_eq t u | _ \<Rightarrow> False)"

text \<open>
  The matrix \<^verbatim>\<open>A_tilde\<close> of \<^verbatim>\<open>GraphConvolutionModule.forward\<close> when hop \<open>n + 1\<close> is
  computed: the normalized \<open>A\<close> at hop 1, and from hop 2 on the product of the
  transposed previous matrix and the raw \<open>A\<close> (line 214).
\<close>

primrec A_tilde_at :: "tensor \<Rightarrow> nat \<Rightarrow> error + tensor" where
  "A_tilde_at A 0 = GraphConvolutionModule_norm_adj A"
| "A_tilde_at A (Suc n) =
     bind_r (A_tilde_at A n) (\<lambda>A_tilde. bind_r (permute_021 A_tilde) (\<lambda>P. torch_bmm P A))"

text \<open>
  A hop as claim C2 words it: the evolved matrix \<open>E\<close> is multiplied against the
  previous state \<open>h_prev\<close> directly, with no normalization, and blended with \<open>x\<close>.
\<close>

definition hop_without_normalization :: "tensor \<Rightarrow> tensor \<Rightarrow> tensor \<Rightarrow> real \<Rightarrow> error + tensor" where
  "hop_without_normalization h_prev x E beta =
     bind_r (torch_matmul E h_prev) (\<lambda>h. tensor_add (scalar_mul beta x) (scalar_mul (1 - beta) h))"

text \<open>
  A square matrix is antisymmetric when entry \<open>(j, i)\<close> is the negative of entry
  \<open>(i, j)\<close>. A matrix has one direction per pair when its diagonal is zero and, of the
  entries \<open>(i, j)\<close> and \<open>(j, i)\<close>, at most one is nonzero.
\<close>

definition antisymmetric :: "tensor \<Rightarrow> bool" where
  "antisymmetric D =
     (length (shape D) = 2 \<and> shape D ! 0 = shape D ! 1
      \<and> list_all (\<lambda>i. list_all (\<lambda>j. entry D [j, i] = - entry D [i, j]) [0..<shape D ! 1])
           [0..<shape D ! 0])"

definition one_direction :: "tensor \<Rightarrow> bool" where
  "one_direction M =
     (length (shape M) = 2 \<and> shape M ! 0 = shape M ! 1
      \<and> list_all (\<lambda>i. entry M [i, i] = 0
             \<and> list_all (\<lambda>j. entry M [i, j] = 0 \<or> entry M [j, i] = 0) [0..<shape M ! 1])
           [0..<shape M ! 0])"

text \<open>The number of nonzero entries of every row of a matrix.\<close>

definition row_nonzeros :: "tensor \<Rightarrow> nat list" where
  "row_nonzeros M =
     map (\<lambda>i. length (filter (\<lambda>j. entry M [i, j] \<noteq> 0) [0..<shape M ! 1])) [0..<shape M ! 0]"

text \<open>\<^verbatim>\<open>module.eval()\<close> and \<^verbatim>\<open>module.train()\<close> set the mode flag.\<close>

definition eval_mode :: "AdjConstructor \<Rightarrow> AdjConstructor" where
  "eval_mode self = self\<lparr>training := False\<rparr>"

definition train_mode :: "AdjConstructor \<Rightarrow> AdjConstructor" where
  "train_mode self = self\<lparr>training := True\<rparr>"


section \<open>Facts about the tensor operations\<close>

lemma in_indices: "i \<in> set (indices s) \<longleftrightarrow> list_all2 (<) i s"
proof (induction s arbitrary: i)
  case Nil
  then show ?case by simp
next
  case (Cons n s)
  show ?case
  proof (cases i)
    case Nil
    then show ?thesis by auto
  next
    case (Cons a l)
    then show ?thesis using Cons.IH[of l] by (auto simp: image_iff)
  qed
qed

lemma bc_index_same: "list_all2 (<) i s \<Longrightarrow> bc_index s i = i"
proof -
  assume h: "list_all2 (<) i s"
  then have len: "length i = length s" by (rule list_all2_lengthD)
  from h have "map2 (\<lambda>d j. if d = 1 then 0 else j) s i = i"
    by (induction i s rule: list_all2_induct) auto
  with len show ?thesis by (simp add: bc_index_def)
qed

lemma bc_rev_same: "bc_rev s s = Some s"
  by (induction s) auto

lemma broadcast_same: "broadcast_shapes s s = Some s"
  by (simp add: broadcast_shapes_def bc_rev_same)

lemma sum_upto_delta:
  "i < n \<Longrightarrow> sum_upto n (\<lambda>k. (if k = i then a else 0) * g k) = a * g i"
proof -
  assume "i < n"
  have "sum_upto n (\<lambda>k. (if k = i then a else 0) * g k) = (\<Sum>k = 0..<n. (if k = i then a else 0) * g k)"
    by (simp add: sum_upto_def interv_sum_list_conv_sum_set_nat)
  also have "\<dots> = (\<Sum>k = 0..<n. if k = i then a * g k else 0)"
    by (rule sum.cong) auto
  also have "\<dots> = a * g i" using \<open>i < n\<close> by (simp add: sum.delta)
  finally show ?thesis .
qed

lemma norm_adj_same: "GraphConvolutionModule_norm_adj A = InformationPropagtionLayer_norm_adj A"
  by (simp add: GraphConvolutionModule_norm_adj_def InformationPropagtionLayer_norm_adj_def)

lemma stack_const:
  "0 < C \<Longrightarrow> torch_stack (map (\<lambda>_. t) [0..<C])
     = Inr (Tensor (C # shape t) (\<lambda>i. entry (map (\<lambda>_. t) [0..<C] ! hd i) (tl i)))"
  by (cases C) (auto simp: torch_stack_def upt_conv_Cons list_all_iff simp del: upt_Suc)


lemma bc_index_nil [simp]: "bc_index [] i = []"
  by (simp add: bc_index_def)

lemma bc_index_1 [simp]: "c < C \<Longrightarrow> bc_index [C] [c] = [c]"
  by (rule bc_index_same) simp

lemma bc_index_12 [simp]: "c < C \<Longrightarrow> bc_index [C] [b, c] = [c]"
  by (auto simp: bc_index_def)

lemma stack_eyes:
  assumes "0 < C"
  shows "\<exists>E. torch_stack (map (\<lambda>_. torch_eye N) [0..<C]) = Inr E \<and> shape E = [C, N, N]
      \<and> (\<forall>c i j. c < C \<longrightarrow> entry E [c, i, j] = (if i = j then 1 else 0))"
  using assms by (simp add: stack_const torch_eye_def)

lemma inv_degree3:
  assumes "shape A = [C, N, N]"
  shows "shape (torch_diag_embed (scalar_div 1 (scalar_add 1 (torch_sum A 2)))) = [C, N, N]"
    and "entry (torch_diag_embed (scalar_div 1 (scalar_add 1 (torch_sum A 2)))) [c, i, k]
           = (if k = i then 1 / (1 + sum_upto N (\<lambda>l. entry A [c, i, l])) else 0)"
  using assms
  by (simp_all add: torch_diag_embed_def scalar_div_def scalar_add_def tensor_map_def torch_sum_def)

lemma inv_degree2:
  assumes "shape A = [N, N]"
  shows "shape (torch_diag (scalar_div 1 (scalar_add 1 (torch_sum A 1)))) = [N, N]"
    and "entry (torch_diag (scalar_div 1 (scalar_add 1 (torch_sum A 1)))) [i, k]
           = (if k = i then 1 / (1 + sum_upto N (\<lambda>l. entry A [i, l])) else 0)"
  using assms
  by (simp_all add: torch_diag_def torch_diag_embed_def scalar_div_def scalar_add_def tensor_map_def torch_sum_def)

lemma tensor_binop_same:
  assumes "shape a = s" "shape b = s"
  shows "\<exists>T. tensor_binop f a b = Inr T \<and> shape T = s
      \<and> (\<forall>i. list_all2 (<) i s \<longrightarrow> entry T i = f (entry a i) (entry b i))"
  using assms by (simp add: tensor_binop_def broadcast_same bc_index_same)

lemma matmul33:
  assumes "shape a = [C, N, M]" "shape b = [C, M, P]"
  shows "\<exists>T. torch_matmul a b = Inr T \<and> shape T = [C, N, P]
      \<and> (\<forall>c i j. c < C \<longrightarrow> entry T [c, i, j] = sum_upto M (\<lambda>k. entry a [c, i, k] * entry b [c, k, j]))"
  using assms by (simp add: torch_matmul_def Let_def broadcast_same)

lemma matmul22:
  assumes "shape a = [N, M]" "shape b = [M, P]"
  shows "\<exists>T. torch_matmul a b = Inr T \<and> shape T = [N, P]
      \<and> (\<forall>i j. entry T [i, j] = sum_upto M (\<lambda>k. entry a [i, k] * entry b [k, j]))"
  using assms by (simp add: torch_matmul_def Let_def broadcast_same)

lemma norm_adj3:
  assumes A: "shape A = [C, N, N]" and C: "0 < C"
  shows "\<exists>T. InformationPropagtionLayer_norm_adj A = Inr T \<and> shape T = [C, N, N]
     \<and> (\<forall>c i j. c < C \<and> i < N \<and> j < N \<longrightarrow>
          entry T [c, i, j] = (1 / (1 + sum_upto N (\<lambda>l. entry A [c, i, l])))
             * (entry A [c, i, j] + (if i = j then 1 else 0)))"
proof -
  let ?D = "torch_diag_embed (scalar_div 1 (scalar_add 1 (torch_sum A 2)))"
  obtain E where E: "torch_stack (map (\<lambda>_. torch_eye (shape A ! 1)) [0..<shape A ! 0]) = Inr E"
      "shape E = [C, N, N]" "\<And>c i j. c < C \<Longrightarrow> entry E [c, i, j] = (if i = j then 1 else 0)"
    using stack_eyes[OF C, of N] A by auto
  obtain AI where AI: "tensor_add A E = Inr AI" "shape AI = [C, N, N]"
      "\<And>i. list_all2 (<) i [C, N, N] \<Longrightarrow> entry AI i = entry A i + entry E i"
    using tensor_binop_same[OF A E(2), of "(+)"] by (auto simp: tensor_add_def)
  obtain T where T: "torch_matmul ?D AI = Inr T" "shape T = [C, N, N]"
      "\<And>c i j. c < C \<Longrightarrow> entry T [c, i, j] = sum_upto N (\<lambda>k. entry ?D [c, i, k] * entry AI [c, k, j])"
    using matmul33[OF inv_degree3(1)[OF A] AI(2)] by auto
  have "InformationPropagtionLayer_norm_adj A = Inr T"
    using A E(1) AI(1) T(1) by (simp add: InformationPropagtionLayer_norm_adj_def bind_r_def)
  moreover have "entry T [c, i, j] = (1 / (1 + sum_upto N (\<lambda>l. entry A [c, i, l])))
             * (entry A [c, i, j] + (if i = j then 1 else 0))" if "c < C" "i < N" "j < N" for c i j
  proof -
    have "entry T [c, i, j] = sum_upto N (\<lambda>k. (if k = i then 1 / (1 + sum_upto N (\<lambda>l. entry A [c, i, l])) else 0) * entry AI [c, k, j])"
      by (simp only: T(3)[OF that(1)] inv_degree3(2)[OF A])
    also have "\<dots> = (1 / (1 + sum_upto N (\<lambda>l. entry A [c, i, l]))) * entry AI [c, i, j]"
      using that by (simp add: sum_upto_delta)
    finally show ?thesis using that by (simp add: AI(3) E(3))
  qed
  ultimately show ?thesis using T(2) by blast
qed

lemma norm_adj2:
  assumes A: "shape A = [N, N]"
  shows "\<exists>T. InformationPropagtionLayer_norm_adj A = Inr T \<and> shape T = [N, N]
     \<and> (\<forall>i j. i < N \<and> j < N \<longrightarrow>
          entry T [i, j] = (1 / (1 + sum_upto N (\<lambda>l. entry A [i, l])))
             * (entry A [i, j] + (if i = j then 1 else 0)))"
proof -
  let ?D = "torch_diag (scalar_div 1 (scalar_add 1 (torch_sum A 1)))"
  have E: "shape (torch_eye N) = [N, N]" "\<And>i j. entry (torch_eye N) [i, j] = (if i = j then 1 else 0)"
    by (simp_all add: torch_eye_def)
  obtain AI where AI: "tensor_add A (torch_eye N) = Inr AI" "shape AI = [N, N]"
      "\<And>i. list_all2 (<) i [N, N] \<Longrightarrow> entry AI i = entry A i + entry (torch_eye N) i"
    using tensor_binop_same[OF A E(1), of "(+)"] by (auto simp: tensor_add_def)
  obtain T where T: "torch_matmul ?D AI = Inr T" "shape T = [N, N]"
      "\<And>i j. entry T [i, j] = sum_upto N (\<lambda>k. entry ?D [i, k] * entry AI [k, j])"
    using matmul22[OF inv_degree2(1)[OF A] AI(2)] by auto
  have "InformationPropagtionLayer_norm_adj A = Inr T"
    using A AI(1) T(1) by (simp add: InformationPropagtionLayer_norm_adj_def bind_r_def)
  moreover have "entry T [i, j] = (1 / (1 + sum_upto N (\<lambda>l. entry A [i, l])))
             * (entry A [i, j] + (if i = j then 1 else 0))" if "i < N" "j < N" for i j
  proof -
    have "entry T [i, j] = sum_upto N (\<lambda>k. (if k = i then 1 / (1 + sum_upto N (\<lambda>l. entry A [i, l])) else 0) * entry AI [k, j])"
      by (simp only: T(3) inv_degree2(2)[OF A])
    also have "\<dots> = (1 / (1 + sum_upto N (\<lambda>l. entry A [i, l]))) * entry AI [i, j]"
      using that by (simp add: sum_upto_delta)
    finally show ?thesis using that by (simp add: AI(3) E(2))
  qed
  ultimately show ?thesis using T(2) by blast
qed


lemma sum_upto_sum: "sum_upto n f = (\<Sum>j = 0..<n. f j)"
  by (simp add: sum_upto_def interv_sum_list_conv_sum_set_nat)

lemma nonnegD: "nonneg t \<Longrightarrow> list_all2 (<) i (shape t) \<Longrightarrow> 0 \<le> entry t i"
  by (simp add: nonneg_def to_list_def list_all_iff in_indices)

lemma normalized_row_sum:
  assumes "\<And>j. j < N \<Longrightarrow> 0 \<le> a j" "i < N"
  shows "sum_upto N (\<lambda>j. 1 / (1 + sum_upto N a) * (a j + (if i = j then 1 else 0))) = 1"
proof -
  have S: "0 \<le> sum_upto N a" using assms(1) by (auto simp: sum_upto_sum intro!: sum_nonneg)
  have d: "(\<Sum>j = 0..<N. if i = j then 1 else 0) = (1::real)"
    using assms(2) by simp
  have "sum_upto N (\<lambda>j. 1 / (1 + sum_upto N a) * (a j + (if i = j then 1 else 0)))
      = 1 / (1 + sum_upto N a) * (\<Sum>j = 0..<N. a j + (if i = j then 1 else 0))"
    unfolding sum_upto_sum by (rule sum_distrib_left[symmetric])
  also have "(\<Sum>j = 0..<N. a j + (if i = j then 1 else 0)) = sum_upto N a + 1"
    unfolding sum_upto_sum sum.distrib d ..
  finally show ?thesis using S by simp
qed

lemma sum_upto_cong: "(\<And>j. j < n \<Longrightarrow> f j = g j) \<Longrightarrow> sum_upto n f = sum_upto n g"
  by (simp add: sum_upto_sum)

lemma indices3: "set (indices [C, N, M]) = {[c, i, j] | c i j. c < C \<and> i < N \<and> j < M}"
  by (auto simp: image_iff)

lemma indices2: "set (indices [N, M]) = {[i, j] | i j. i < N \<and> j < M}"
  by (auto simp: image_iff)

lemma bind_r_eq_Inl: "bind_r m f = Inl e \<longleftrightarrow> m = Inl e \<or> (\<exists>v. m = Inr v \<and> f v = Inl e)"
  by (cases m) (simp_all add: bind_r_def)

lemma bind_r_Inr [simp]: "bind_r (Inr v) f = f v"
  by (simp add: bind_r_def)

lemma bind_r_Inl [simp]: "bind_r (Inl e) f = Inl e"
  by (simp add: bind_r_def)

lemma stack_not_assert: "torch_stack ts \<noteq> Inl AssertionError"
  by (simp add: torch_stack_def split: list.splits)

lemma binop_not_assert: "tensor_binop f a b \<noteq> Inl AssertionError"
  by (simp add: tensor_binop_def split: option.splits)

lemma matmul_not_assert: "torch_matmul a b \<noteq> Inl AssertionError"
  by (simp add: torch_matmul_def Let_def split: option.splits)

lemma norm_adj_AssertionError_iff:
  "InformationPropagtionLayer_norm_adj A = Inl AssertionError \<longleftrightarrow> length (shape A) \<noteq> 2 \<and> length (shape A) \<noteq> 3"
  by (auto simp: InformationPropagtionLayer_norm_adj_def bind_r_eq_Inl stack_not_assert
        tensor_add_def binop_not_assert matmul_not_assert Let_def)


lemma matmul_34_shape:
  assumes "shape a = [C, N, M]" "shape b = [B, C, M, L]"
  shows "\<exists>h. torch_matmul a b = Inr h \<and> shape h = [B, C, N, L]"
  using assms by (simp add: torch_matmul_def Let_def broadcast_shapes_def)

lemma matmul_24_shape:
  assumes "shape a = [N, M]" "shape b = [B, C, M, L]"
  shows "\<exists>h. torch_matmul a b = Inr h \<and> shape h = [B, C, N, L]"
  using assms by (simp add: torch_matmul_def Let_def broadcast_shapes_def)

lemma norm_adj_shape:
  assumes "shape A = [N, N] \<or> shape A = [C, N, N] \<and> 0 < C"
  shows "\<exists>T. InformationPropagtionLayer_norm_adj A = Inr T \<and> shape T = shape A"
  using assms norm_adj2[of A N] norm_adj3[of A C N] by auto

lemma propagate_shape:
  assumes "shape A = [N, N] \<or> shape A = [C, N, N] \<and> 0 < C" "shape x = [B, C, N, L]"
  shows "\<exists>T h. InformationPropagtionLayer_norm_adj A = Inr T \<and> torch_matmul T x = Inr h
           \<and> shape h = [B, C, N, L]"
proof -
  obtain T where T: "InformationPropagtionLayer_norm_adj A = Inr T" "shape T = shape A"
    using norm_adj_shape[OF assms(1)] by auto
  from assms(1) show ?thesis
  proof
    assume "shape A = [N, N]"
    then show ?thesis using T matmul_24_shape[of T N N x B C L] assms(2) by auto
  next
    assume "shape A = [C, N, N] \<and> 0 < C"
    then show ?thesis using T matmul_34_shape[of T C N N x B L] assms(2) by auto
  qed
qed

lemma blend_same_shape:
  assumes "shape a = s" "shape b = s"
  shows "\<exists>out. tensor_add (scalar_mul p a) (scalar_mul q b) = Inr out \<and> shape out = s
            \<and> to_list out = map (\<lambda>i. p * entry a i + q * entry b i) (indices s)"
proof -
  have "shape (scalar_mul p a) = s" "shape (scalar_mul q b) = s"
    using assms by (simp_all add: scalar_mul_def tensor_map_def)
  from tensor_binop_same[OF this, of "(+)"]
  obtain out where out: "tensor_add (scalar_mul p a) (scalar_mul q b) = Inr out" "shape out = s"
      "\<And>i. list_all2 (<) i s \<Longrightarrow> entry out i = entry (scalar_mul p a) i + entry (scalar_mul q b) i"
    by (auto simp: tensor_add_def)
  have "to_list out = map (\<lambda>i. p * entry a i + q * entry b i) (indices s)"
    unfolding to_list_def out(2)
    by (rule map_cong) (simp_all add: in_indices out(3) scalar_mul_def tensor_map_def)
  with out show ?thesis by blast
qed


section \<open>Facts about the graph convolution module\<close>

lemma bind_r_eq_Inr: "bind_r m f = Inr v \<longleftrightarrow> (\<exists>u. m = Inr u \<and> f u = Inr v)"
  by (cases m) (simp_all add: bind_r_def)

lemma foldl_map_upd:
  "foldl (\<lambda>m i. m(i \<mapsto> f i)) m0 [a..<b] j = (if a \<le> j \<and> j < b then Some (f j) else m0 j)"
  by (induction b) auto

lemma gcl_init:
  "gcl (GraphConvolutionModule_init i_f o_f k W b) j
     = (if 1 \<le> j \<and> j \<le> k then Some InformationPropagtionLayer else None)"
  by (simp add: GraphConvolutionModule_init_def foldl_map_upd less_Suc_eq_le)

lemma info_select_init:
  "info_select (GraphConvolutionModule_init i_f o_f k W b) j
     = (if j \<le> k then Some \<lparr> in_channels = o_f, out_channels = o_f, weight = W j, bias = b j \<rparr> else None)"
  by (simp add: GraphConvolutionModule_init_def foldl_map_upd less_Suc_eq_le)

lemma hops_init [simp]: "hops (GraphConvolutionModule_init i_f o_f k W b) = k"
  by (simp add: GraphConvolutionModule_init_def)

lemma hop_loop_inv:
  assumes "hop_loop self x A beta [a..<b] (At, hs) = Inr (At', hs')"
      and "length hs = a" and "2 \<le> a" and "A_tilde_at A (a - 2) = Inr At"
  shows "length hs' = max a b \<and> take a hs' = hs
       \<and> (\<forall>i. a \<le> i \<and> i < b \<longrightarrow>
            (\<exists>E. A_tilde_at A (i - 1) = Inr E
               \<and> InformationPropagtionLayer_forward (hs' ! (i - 1)) x E beta = Inr (hs' ! i)))"
  using assms
proof (induction "b - a" arbitrary: a At hs)
  case 0
  then show ?case by (auto simp del: A_tilde_at.simps)
next
  case (Suc n)
  then have ab: "a < b" by simp
  then have upt: "[a..<b] = a # [Suc a..<b]" by (rule upt_conv_Cons)
  from Suc.prems(1) obtain P E h where
      P: "permute_021 At = Inr P" and E: "torch_bmm P A = Inr E"
      and h: "InformationPropagtionLayer_forward (last hs) x E beta = Inr h"
      and rest: "hop_loop self x A beta [Suc a..<b] (E, hs @ [h]) = Inr (At', hs')"
    unfolding upt by (auto simp: bind_r_eq_Inr)
  have a2: "a - 1 = Suc (a - 2)" using Suc.prems(3) by simp
  have AE1: "A_tilde_at A (a - 1) = Inr E"
    unfolding a2 using Suc.prems(4) P E by simp
  have "Suc a - 2 = a - 1" by simp
  with AE1 have AE: "A_tilde_at A (Suc a - 2) = Inr E" by (simp only:)
  have n: "n = b - Suc a" using Suc.hyps(2) by simp
  from Suc.hyps(1)[OF n rest _ _ AE] Suc.prems(2,3)
  have IH: "length hs' = max (Suc a) b" "take (Suc a) hs' = hs @ [h]"
      "\<And>i. Suc a \<le> i \<Longrightarrow> i < b \<Longrightarrow> \<exists>E. A_tilde_at A (i - 1) = Inr E
               \<and> InformationPropagtionLayer_forward (hs' ! (i - 1)) x E beta = Inr (hs' ! i)"
    by auto
  have len: "length hs' = max a b" using IH(1) ab by simp
  have tk: "take a hs' = hs"
  proof -
    have "take a hs' = take a (take (Suc a) hs')" by (simp add: min_def)
    then show ?thesis using IH(2) Suc.prems(2) by simp
  qed
  have nth_a: "hs' ! a = h"
  proof -
    have "hs' ! a = take (Suc a) hs' ! a" by simp
    then show ?thesis using IH(2) Suc.prems(2) by (simp add: nth_append)
  qed
  have nth_a1: "hs' ! (a - 1) = last hs"
  proof -
    have "hs' ! (a - 1) = take a hs' ! (a - 1)" using Suc.prems(3) by simp
    also have "\<dots> = hs ! (a - 1)" by (simp only: tk)
    also have "\<dots> = last hs" using Suc.prems(2,3) by (cases hs rule: rev_cases) (auto simp: nth_append)
    finally show ?thesis .
  qed
  have step: "\<exists>E. A_tilde_at A (i - 1) = Inr E
               \<and> InformationPropagtionLayer_forward (hs' ! (i - 1)) x E beta = Inr (hs' ! i)"
    if "a \<le> i" "i < b" for i
  proof (cases "i = a")
    case True
    then show ?thesis using AE1 h nth_a nth_a1 by (simp only:) blast
  next
    case False
    then show ?thesis using IH(3)[of i] that by simp
  qed
  show ?case using len tk step by blast
qed

lemma hiddens_hops:
  assumes "GraphConvolutionModule_hiddens self x A beta = Inr hs" and "2 \<le> i" and "i \<le> hops self"
  shows "\<exists>E. A_tilde_at A (i - 1) = Inr E
           \<and> InformationPropagtionLayer_forward (hs ! (i - 1)) x E beta = Inr (hs ! i)"
proof -
  from assms(1) obtain At h1 At' where
      At: "GraphConvolutionModule_norm_adj A = Inr At"
      and loop: "hop_loop self x A beta [2..<hops self + 1] (At, [x, h1]) = Inr (At', hs)"
    by (auto simp: GraphConvolutionModule_hiddens_def bind_r_eq_Inr split: prod.splits)
  have "A_tilde_at A (2 - 2) = Inr At" using At by simp
  from hop_loop_inv[OF loop _ _ this] assms(2,3) show ?thesis by simp
qed


lemma ipl_forward_shape:
  assumes "shape A = [N, N] \<or> shape A = [C, N, N] \<and> 0 < C"
      and "shape x' = [B, C, N, L]" and "shape h_in = [B, C, N, L]"
  shows "\<exists>h. InformationPropagtionLayer_forward x' h_in A beta = Inr h \<and> shape h = [B, C, N, L]"
proof -
  obtain T h where Th: "InformationPropagtionLayer_norm_adj A = Inr T" "torch_matmul T x' = Inr h"
      "shape h = [B, C, N, L]"
    using propagate_shape[OF assms(1,2)] by auto
  obtain out where "tensor_add (scalar_mul beta h_in) (scalar_mul (1 - beta) h) = Inr out"
      "shape out = [B, C, N, L]"
    using blend_same_shape[OF assms(3) Th(3)] by blast
  then show ?thesis using Th(1,2) by (simp add: InformationPropagtionLayer_forward_def)
qed

lemma evolve_shape:
  assumes "shape At = [C, N, N]" "shape A = [C, N, N]"
  shows "\<exists>P E. permute_021 At = Inr P \<and> torch_bmm P A = Inr E \<and> shape E = [C, N, N]"
  using assms by (simp add: permute_021_def torch_bmm_def)

lemma hop_loop_total:
  assumes "\<forall>i\<in>set is. gcl self i \<noteq> None" and "shape A = [C, N, N]" and "0 < C"
      and "shape x = [B, C, N, L]" and "shape At = [C, N, N]"
      and "\<forall>h\<in>set hs. shape h = [B, C, N, L]" and "hs \<noteq> []"
  shows "\<exists>At' hs'. hop_loop self x A beta is (At, hs) = Inr (At', hs')
           \<and> length hs' = length hs + length is \<and> (\<forall>h\<in>set hs'. shape h = [B, C, N, L])"
  using assms
proof (induction "is" arbitrary: At hs)
  case Nil
  then show ?case by simp
next
  case (Cons i "is")
  obtain l where l: "getattr (gcl self) i = Inr l"
    using Cons.prems(1) by (auto simp: getattr_def)
  obtain P E where PE: "permute_021 At = Inr P" "torch_bmm P A = Inr E" "shape E = [C, N, N]"
    using evolve_shape[OF Cons.prems(5) Cons.prems(2)] by blast
  have "shape (last hs) = [B, C, N, L]" using Cons.prems(6,7) by simp
  from ipl_forward_shape[where A = E and beta = beta and N = N, OF _ this Cons.prems(4)] PE(3) Cons.prems(3)
  obtain h where h: "InformationPropagtionLayer_forward (last hs) x E beta = Inr h" "shape h = [B, C, N, L]"
    by auto
  have "\<exists>At' hs'. hop_loop self x A beta is (E, hs @ [h]) = Inr (At', hs')
           \<and> length hs' = length (hs @ [h]) + length is \<and> (\<forall>h\<in>set hs'. shape h = [B, C, N, L])"
    using Cons.prems h(2) PE(3) by (intro Cons.IH) auto
  then show ?case using l PE(1,2) h(1) by auto
qed

lemma hiddens_total:
  assumes "1 \<le> k" and "shape x = [B, C, N, L]" and "0 < C"
      and "shape A = [C, N, N] \<or> shape A = [N, N] \<and> k = 1"
  shows "\<exists>hs. GraphConvolutionModule_hiddens (GraphConvolutionModule_init i_f o_f k W b) x A beta = Inr hs
           \<and> length hs = k + 1 \<and> (\<forall>h\<in>set hs. shape h = [B, C, N, L])"
proof -
  let ?self = "GraphConvolutionModule_init i_f o_f k W b"
  have sq: "shape A = [N, N] \<or> shape A = [C, N, N] \<and> 0 < C" using assms(3,4) by auto
  obtain At where At: "GraphConvolutionModule_norm_adj A = Inr At" "shape At = shape A"
    using norm_adj_shape[OF sq] by (auto simp: norm_adj_same)
  have g1: "getattr (gcl ?self) 1 = Inr InformationPropagtionLayer"
    using assms(1) by (simp add: getattr_def gcl_init)
  have sqt: "shape At = [N, N] \<or> shape At = [C, N, N] \<and> 0 < C" using sq At(2) by simp
  obtain h1 where h1: "InformationPropagtionLayer_forward (last [x]) x At default_beta = Inr h1"
      "shape h1 = [B, C, N, L]"
    using ipl_forward_shape[where x' = x and beta = default_beta, OF sqt assms(2) assms(2)] by auto
  have "\<exists>At' hs'. hop_loop ?self x A beta [2..<k + 1] (At, [x, h1]) = Inr (At', hs')
           \<and> length hs' = length [x, h1] + length [2..<k + 1] \<and> (\<forall>h\<in>set hs'. shape h = [B, C, N, L])"
  proof (cases "k = 1")
    case True
    then show ?thesis using assms(2) h1(2) by simp
  next
    case False
    then have A3: "shape A = [C, N, N]" using assms(4) by auto
    show ?thesis
      using assms(2,3) h1(2) A3 At(2) by (intro hop_loop_total) (auto simp: gcl_init)
  qed
  then obtain At' hs' where loop: "hop_loop ?self x A beta [2..<k + 1] (At, [x, h1]) = Inr (At', hs')"
      "length hs' = length [x, h1] + length [2..<k + 1]" "\<forall>h\<in>set hs'. shape h = [B, C, N, L]"
    by blast
  have "GraphConvolutionModule_hiddens ?self x A beta = Inr hs'"
    using At(1) g1 h1(1) loop(1) by (simp add: GraphConvolutionModule_hiddens_def)
  moreover have "length hs' = k + 1" using loop(2) assms(1) by (simp del: upt_Suc)
  ultimately show ?thesis using loop(3) by blast
qed

lemma conv_shape:
  assumes "in_channels cv = C" "out_channels cv = C" "shape h = [B, C, N, L]"
  shows "\<exists>y. Conv2d_forward cv h = Inr y \<and> shape y = [B, C, N, L]"
  using assms by (simp add: Conv2d_forward_def)

lemma iadd_shape:
  assumes "shape t = s" "shape y = s"
  shows "\<exists>out. tensor_iadd t y = Inr out \<and> shape out = s"
  using assms by (simp add: tensor_iadd_def broadcast_same)

lemma select_loop_total:
  assumes "\<forall>i\<in>set is. i < length hs \<and> (\<exists>cv. info_select self i = Some cv \<and> in_channels cv = C \<and> out_channels cv = C)"
      and "\<forall>h\<in>set hs. shape h = [B, C, N, L]"
      and "case out of None \<Rightarrow> is \<noteq> [] | Some t \<Rightarrow> shape t = [B, C, N, L]"
  shows "\<exists>t. select_loop self hs is out = Inr (Some t) \<and> shape t = [B, C, N, L]"
  using assms
proof (induction "is" arbitrary: out)
  case Nil
  then show ?case by (cases out) auto
next
  case (Cons i "is")
  from Cons.prems(1) obtain cv where cv: "info_select self i = Some cv" "in_channels cv = C" "out_channels cv = C"
      and i: "i < length hs"
    by auto
  have "shape (hs ! i) = [B, C, N, L]" using Cons.prems(2) i by simp
  from conv_shape[OF cv(2,3) this] obtain y where y: "Conv2d_forward cv (hs ! i) = Inr y" "shape y = [B, C, N, L]"
    by blast
  have "\<exists>out'. (case out of None \<Rightarrow> Inr (scalar_add 0 y) | Some t \<Rightarrow> tensor_iadd t y) = Inr out'
           \<and> shape out' = [B, C, N, L]"
  proof (cases out)
    case None
    then show ?thesis using y(2) by (simp add: scalar_add_def tensor_map_def)
  next
    case (Some t)
    then show ?thesis using iadd_shape[of t "[B, C, N, L]" y] Cons.prems(3) y(2) by simp
  qed
  then obtain out' where out': "(case out of None \<Rightarrow> Inr (scalar_add 0 y) | Some t \<Rightarrow> tensor_iadd t y) = Inr out'"
      "shape out' = [B, C, N, L]"
    by blast
  have "\<exists>t. select_loop self hs is (Some out') = Inr (Some t) \<and> shape t = [B, C, N, L]"
    using Cons.prems(1,2) out'(2) by (intro Cons.IH) auto
  then show ?case using cv(1) i y(1) out'(1) by (simp add: getattr_def)
qed


section \<open>Facts about the adjacency constructor\<close>

lemma embedding_ok:
  assumes "list_all (\<lambda>j. 0 \<le> j \<and> j < int (num_embeddings e)) idx"
  shows "\<exists>t. Embedding_forward e idx = Inr t \<and> shape t = [length idx, embedding_dim e]"
  using assms by (simp add: Embedding_forward_def)

lemma linear_ok:
  assumes "shape t = [n, in_dim l]"
  shows "\<exists>u. Linear_forward l t = Inr u \<and> shape u = [n, out_dim l]"
  using assms by (simp add: Linear_forward_def)

lemma activation_shape [simp]: "shape (torch_tanh (scalar_mul a t)) = shape t"
  by (simp add: torch_tanh_def scalar_mul_def tensor_map_def)

lemma gram_ok:
  assumes "shape a = [n, d]" "shape b = [n, d]"
  shows "\<exists>m. torch_matmul a (tensor_T b) = Inr m \<and> shape m = [n, n]
           \<and> (\<forall>i j. entry m [i, j] = sum_upto d (\<lambda>k. entry a [i, k] * entry b [j, k]))"
proof -
  have "shape (tensor_T b) = [d, n]" using assms(2) by (simp add: tensor_T_def)
  from matmul22[OF assms(1) this] show ?thesis by (auto simp: tensor_T_def)
qed

lemma scores_ok:
  assumes "list_all (\<lambda>j. 0 \<le> j \<and> j < int n_nodes) idx"
      and "self = (AdjConstructor_init n_nodes d al tk E1 E2 W1 b1 W2 b2)\<lparr>training := tr\<rparr>"
  shows "\<exists>D. shape D = [length idx, length idx]
           \<and> (\<forall>i j. i < length idx \<and> j < length idx \<longrightarrow> entry D [j, i] = - entry D [i, j])
           \<and> AdjConstructor_scores self idx = Inr (torch_relu D)"
proof -
  let ?n = "length idx"
  have flds: "num_embeddings (emb1 self) = n_nodes" "num_embeddings (emb2 self) = n_nodes"
      "embedding_dim (emb1 self) = d" "embedding_dim (emb2 self) = d"
      "in_dim (theta1 self) = d" "out_dim (theta1 self) = d"
      "in_dim (theta2 self) = d" "out_dim (theta2 self) = d" "alpha self = al"
    by (simp_all add: assms(2) AdjConstructor_init_def)
  obtain e1 where e1: "Embedding_forward (emb1 self) idx = Inr e1" "shape e1 = [?n, d]"
    using embedding_ok[of "emb1 self" idx] assms(1) flds by auto
  obtain e2 where e2: "Embedding_forward (emb2 self) idx = Inr e2" "shape e2 = [?n, d]"
    using embedding_ok[of "emb2 self" idx] assms(1) flds by auto
  obtain l1 where l1: "Linear_forward (theta1 self) e1 = Inr l1" "shape l1 = [?n, d]"
    using linear_ok[of e1 ?n "theta1 self"] e1(2) flds by auto
  obtain l2 where l2: "Linear_forward (theta2 self) e2 = Inr l2" "shape l2 = [?n, d]"
    using linear_ok[of e2 ?n "theta2 self"] e2(2) flds by auto
  let ?a = "torch_tanh (scalar_mul al l1)" and ?b = "torch_tanh (scalar_mul al l2)"
  have sa: "shape ?a = [?n, d]" and sb: "shape ?b = [?n, d]" using l1(2) l2(2) by simp_all
  obtain m12 where m12: "torch_matmul ?a (tensor_T ?b) = Inr m12" "shape m12 = [?n, ?n]"
      "\<And>i j. entry m12 [i, j] = sum_upto d (\<lambda>k. entry ?a [i, k] * entry ?b [j, k])"
    using gram_ok[OF sa sb] by blast
  obtain m21 where m21: "torch_matmul ?b (tensor_T ?a) = Inr m21" "shape m21 = [?n, ?n]"
      "\<And>i j. entry m21 [i, j] = sum_upto d (\<lambda>k. entry ?b [i, k] * entry ?a [j, k])"
    using gram_ok[OF sb sa] by blast
  obtain df where df: "tensor_sub m12 m21 = Inr df" "shape df = [?n, ?n]"
      "\<And>i. list_all2 (<) i [?n, ?n] \<Longrightarrow> entry df i = entry m12 i - entry m21 i"
    using tensor_binop_same[OF m12(2) m21(2), of "(-)"] by (auto simp: tensor_sub_def)
  have sym: "entry m21 [i, j] = entry m12 [j, i]" for i j
    unfolding m12(3) m21(3) by (simp add: mult.commute)
  let ?D = "torch_tanh (scalar_mul al df)"
  have "shape ?D = [?n, ?n]" using df(2) by simp
  moreover have "entry ?D [j, i] = - entry ?D [i, j]" if "i < ?n" "j < ?n" for i j
  proof -
    have "entry df [j, i] = - entry df [i, j]" using that by (simp add: df(3) sym)
    then show ?thesis by (simp add: torch_tanh_def scalar_mul_def tensor_map_def)
  qed
  moreover have "AdjConstructor_scores self idx = Inr (torch_relu ?D)"
    using e1(1) e2(1) l1(1) l2(1) m12(1) m21(1) df(1) flds(9)
    by (simp add: AdjConstructor_scores_def Let_def)
  ultimately show ?thesis by blast
qed

lemma relu_entry: "entry (torch_relu D) i = max 0 (entry D i)" and relu_shape: "shape (torch_relu D) = shape D"
  by (simp_all add: torch_relu_def tensor_map_def)

lemma relu_one_direction:
  assumes "shape D = [n, n]" "\<And>i j. i < n \<Longrightarrow> j < n \<Longrightarrow> entry D [j, i] = - entry D [i, j]"
  shows "antisymmetric D" and "one_direction (torch_relu D)"
proof -
  show "antisymmetric D"
    unfolding antisymmetric_def list_all_iff assms(1) by (auto intro!: assms(2))
  have diag: "entry (torch_relu D) [i, i] = 0" if "i < n" for i
    using assms(2)[OF that that] by (simp add: relu_entry)
  have pair: "entry (torch_relu D) [i, j] = 0 \<or> entry (torch_relu D) [j, i] = 0" if "i < n" "j < n" for i j
    unfolding relu_entry assms(2)[OF that] by (simp add: max_def)
  have sh: "shape (torch_relu D) = [n, n]" using assms(1) by (simp add: relu_shape)
  show "one_direction (torch_relu D)"
    unfolding one_direction_def list_all_iff sh using diag pair by simp
qed

lemma length_topk_row: "length (topk_row row k) \<le> k"
  by (simp add: topk_row_def)

lemma topk_ok:
  assumes "shape t = [n, n]" "k \<le> n"
  shows "\<exists>s1 t1. torch_topk t k = Inr (s1, t1) \<and> length t1 = n \<and> (\<forall>r<n. length (t1 ! r) \<le> k)"
proof -
  let ?t1 = "map (\<lambda>r. topk_row (map (\<lambda>c. entry t [r, c]) [0..<n]) k) [0..<n]"
  have "torch_topk t k = Inr (Tensor [n, k] (\<lambda>i. entry t [i ! 0, ?t1 ! (i ! 0) ! (i ! 1)]), ?t1)"
    using assms by (simp add: torch_topk_def Let_def)
  moreover have "length ?t1 = n" by simp
  moreover have "\<forall>r<n. length (?t1 ! r) \<le> k" by (simp add: length_topk_row)
  ultimately show ?thesis by blast
qed

lemma scatter_entry:
  "entry (scatter_1 (fill (torch_zeros s) 0) t1 (fill s1 1)) [i, j] \<noteq> 0 \<Longrightarrow> i < length t1 \<and> j \<in> set (t1 ! i)"
  by (auto simp: scatter_1_def fill_def torch_zeros_def find_Some_iff split: if_splits option.splits)

lemma masked_ok:
  assumes "shape adj = [n, n]"
  shows "\<exists>M. tensor_mul adj (scatter_1 (fill (torch_zeros [n, n]) 0) t1 (fill s1 1)) = Inr M
           \<and> shape M = [n, n]
           \<and> (\<forall>i j. i < n \<and> j < n \<longrightarrow> entry M [i, j]
                = entry adj [i, j] * entry (scatter_1 (fill (torch_zeros [n, n]) 0) t1 (fill s1 1)) [i, j])"
proof -
  have "shape (scatter_1 (fill (torch_zeros [n, n]) 0) t1 (fill s1 1)) = [n, n]"
    by (simp add: scatter_1_def fill_def torch_zeros_def)
  from tensor_binop_same[OF assms this, of "(*)"] show ?thesis
    by (auto simp: tensor_mul_def)
qed

lemma forward_ok:
  assumes "list_all (\<lambda>j. 0 \<le> j \<and> j < int n_nodes) idx" and "tk \<le> length idx"
      and "self = (AdjConstructor_init n_nodes d al tk E1 E2 W1 b1 W2 b2)\<lparr>training := tr\<rparr>"
  shows "\<exists>S M t1. AdjConstructor_scores self idx = Inr S
           \<and> fst (AdjConstructor_forward self g idx) = Inr M
           \<and> shape M = [length idx, length idx]
           \<and> (\<forall>r<length idx. length (t1 ! r) \<le> tk)
           \<and> (\<forall>i j. i < length idx \<and> j < length idx \<longrightarrow>
                 (entry M [i, j] \<noteq> 0 \<longrightarrow> entry S [i, j] \<noteq> 0 \<and> j \<in> set (t1 ! i)))"
proof -
  let ?n = "length idx"
  obtain D where D: "shape D = [?n, ?n]" "AdjConstructor_scores self idx = Inr (torch_relu D)"
    using scores_ok[OF assms(1,3)] by blast
  let ?S = "torch_relu D"
  have S: "shape ?S = [?n, ?n]" using D(1) by (simp add: torch_relu_def tensor_map_def)
  have tk: "top_k self = tk" by (simp add: assms(3) AdjConstructor_init_def)
  have key: "\<exists>M t1. bind_r (torch_topk t (top_k self)) (\<lambda>(s1, t1).
               tensor_mul ?S (scatter_1 (fill (torch_zeros [?n, ?n]) 0) t1 (fill s1 1))) = Inr M
           \<and> shape M = [?n, ?n]
           \<and> (\<forall>r<?n. length (t1 ! r) \<le> tk)
           \<and> (\<forall>i j. i < ?n \<and> j < ?n \<longrightarrow>
                 (entry M [i, j] \<noteq> 0 \<longrightarrow> entry ?S [i, j] \<noteq> 0 \<and> j \<in> set (t1 ! i)))"
    if t: "shape t = [?n, ?n]" for t
  proof -
    obtain s1 t1 where top: "torch_topk t tk = Inr (s1, t1)" "length t1 = ?n" "\<forall>r<?n. length (t1 ! r) \<le> tk"
      using topk_ok[OF t assms(2)] by blast
    obtain M where M: "tensor_mul ?S (scatter_1 (fill (torch_zeros [?n, ?n]) 0) t1 (fill s1 1)) = Inr M"
        "shape M = [?n, ?n]"
        "\<And>i j. i < ?n \<Longrightarrow> j < ?n \<Longrightarrow> entry M [i, j]
            = entry ?S [i, j] * entry (scatter_1 (fill (torch_zeros [?n, ?n]) 0) t1 (fill s1 1)) [i, j]"
      using masked_ok[OF S, of t1 s1] by blast
    have "entry ?S [i, j] \<noteq> 0 \<and> j \<in> set (t1 ! i)" if "i < ?n" "j < ?n" "entry M [i, j] \<noteq> 0" for i j
      using that M(3)[OF that(1,2)] scatter_entry[of "[?n, ?n]" t1 s1 i j] by auto
    then show ?thesis using top M(1,2) tk by auto
  qed
  show ?thesis
  proof (cases "training self")
    case False
    then show ?thesis using key[OF S] D(2) by (auto simp: AdjConstructor_forward_def)
  next
    case True
    obtain r g' where r: "torch_rand_like g ?S = (r, g')" by (cases "torch_rand_like g ?S")
    then have "shape r = [?n, ?n]" using S by (auto simp: torch_rand_like_def)
    then have "shape (scalar_mul (1 / 100) r) = [?n, ?n]" by (simp add: scalar_mul_def tensor_map_def)
    from tensor_binop_same[OF S this, of "(+)"]
    obtain noisy where noisy: "tensor_add ?S (scalar_mul (1 / 100) r) = Inr noisy" "shape noisy = [?n, ?n]"
      by (auto simp: tensor_add_def)
    show ?thesis using True key[OF noisy(2)] D(2) r noisy(1) by (auto simp: AdjConstructor_forward_def)
  qed
qed

lemma count_le:
  assumes "\<And>j. j < n \<Longrightarrow> P j \<Longrightarrow> j \<in> set xs"
  shows "length (filter P [0..<n]) \<le> length xs"
proof -
  have "length (filter P [0..<n]) = card ({j. P j} \<inter> set [0..<n])"
    by (rule distinct_length_filter) simp
  also have "\<dots> \<le> card (set xs)" using assms by (intro card_mono) auto
  also have "\<dots> \<le> length xs" by (rule card_length)
  finally show ?thesis .
qed


section \<open>The normalization\<close>

text \<open>
  C4. For a nonnegative square adjacency matrix \<open>A\<close>, of shape \<open>(N, N)\<close> or
  \<open>(C, N, N)\<close> with at least one channel, both copies of \<^verbatim>\<open>norm_adj\<close> return the
  matrix that adds the identity to \<open>A\<close> and divides every row by one plus the row sum
  of the original \<open>A\<close>, and every row of the returned matrix sums to exactly 1.
\<close>

theorem norm_adj_rows_sum_to_one:
  assumes "shape A = [N, N] \<or> shape A = [C, N, N] \<and> 0 < C" and "nonneg A"
  shows "\<exists>T. InformationPropagtionLayer_norm_adj A = Inr T \<and> GraphConvolutionModule_norm_adj A = Inr T
           \<and> tensor_eq T (self_loop_normalized A) \<and> list_all (\<lambda>s. s = 1) (row_sums T)"
  using assms(1)
proof
  assume A: "shape A = [N, N]"
  obtain T where T: "InformationPropagtionLayer_norm_adj A = Inr T" "shape T = [N, N]"
     "\<And>i j. i < N \<Longrightarrow> j < N \<Longrightarrow> entry T [i, j] = (1 / (1 + sum_upto N (\<lambda>l. entry A [i, l])))
             * (entry A [i, j] + (if i = j then 1 else 0))"
    using norm_adj2[OF A] by auto
  have pos: "0 \<le> entry A [i, j]" if "i < N" "j < N" for i j
    using nonnegD[OF assms(2), of "[i, j]"] A that by simp
  have "tensor_eq T (self_loop_normalized A)"
    using A T(2) by (auto simp: tensor_eq_def to_list_def self_loop_normalized_def indices2 T(3) simp del: indices.simps)
  moreover have "list_all (\<lambda>s. s = 1) (row_sums T)"
  proof -
    have "sum_upto N (\<lambda>j. entry T [i, j]) = 1" if "i < N" for i
    proof -
      have "sum_upto N (\<lambda>j. entry T [i, j])
          = sum_upto N (\<lambda>j. 1 / (1 + sum_upto N (\<lambda>l. entry A [i, l])) * (entry A [i, j] + (if i = j then 1 else 0)))"
        by (rule sum_upto_cong) (simp add: T(3)[OF that])
      also have "\<dots> = 1" by (rule normalized_row_sum) (simp_all add: pos that)
      finally show ?thesis .
    qed
    then show ?thesis using T(2) by (auto simp: row_sums_def list_all_iff)
  qed
  ultimately show ?thesis using T(1) by (auto simp: norm_adj_same)
next
  assume "shape A = [C, N, N] \<and> 0 < C"
  then have A: "shape A = [C, N, N]" and C: "0 < C" by simp_all
  obtain T where T: "InformationPropagtionLayer_norm_adj A = Inr T" "shape T = [C, N, N]"
     "\<And>c i j. c < C \<Longrightarrow> i < N \<Longrightarrow> j < N \<Longrightarrow> entry T [c, i, j] = (1 / (1 + sum_upto N (\<lambda>l. entry A [c, i, l])))
             * (entry A [c, i, j] + (if i = j then 1 else 0))"
    using norm_adj3[OF A C] by auto
  have pos: "0 \<le> entry A [c, i, j]" if "c < C" "i < N" "j < N" for c i j
    using nonnegD[OF assms(2), of "[c, i, j]"] A that by simp
  have "tensor_eq T (self_loop_normalized A)"
    using A T(2) by (auto simp: tensor_eq_def to_list_def self_loop_normalized_def indices3 T(3) simp del: indices.simps)
  moreover have "list_all (\<lambda>s. s = 1) (row_sums T)"
  proof -
    have "sum_upto N (\<lambda>j. entry T [c, i, j]) = 1" if "c < C" "i < N" for c i
    proof -
      have "sum_upto N (\<lambda>j. entry T [c, i, j])
          = sum_upto N (\<lambda>j. 1 / (1 + sum_upto N (\<lambda>l. entry A [c, i, l])) * (entry A [c, i, j] + (if i = j then 1 else 0)))"
        by (rule sum_upto_cong) (simp add: T(3)[OF that])
      also have "\<dots> = 1" by (rule normalized_row_sum) (simp_all add: pos that)
      finally show ?thesis .
    qed
    then show ?thesis using T(2) by (auto simp: row_sums_def list_all_iff)
  qed
  ultimately show ?thesis using T(1) by (auto simp: norm_adj_same)
qed

text \<open>A one-channel matrix on two nodes with rows \<open>(0, 1)\<close> and \<open>(3, 0)\<close>.\<close>

theorem norm_adj_rows_sum_to_one_witness:
  "(shape (tensor_of [1, 2, 2] [0, 1, 3, 0]) = [2, 2]
      \<or> shape (tensor_of [1, 2, 2] [0, 1, 3, 0]) = [1, 2, 2] \<and> (0::nat) < 1)
   \<and> nonneg (tensor_of [1, 2, 2] [0, 1, 3, 0])
   \<and> (\<exists>T. InformationPropagtionLayer_norm_adj (tensor_of [1, 2, 2] [0, 1, 3, 0]) = Inr T
         \<and> GraphConvolutionModule_norm_adj (tensor_of [1, 2, 2] [0, 1, 3, 0]) = Inr T
         \<and> tensor_eq T (self_loop_normalized (tensor_of [1, 2, 2] [0, 1, 3, 0]))
         \<and> list_all (\<lambda>s. s = 1) (row_sums T))"
proof -
  have h1: "shape (tensor_of [1, 2, 2] [0, 1, 3, 0]) = [2, 2]
      \<or> shape (tensor_of [1, 2, 2] [0, 1, 3, 0]) = [1, 2, 2] \<and> (0::nat) < 1"
    by (simp add: tensor_of_def)
  have h2: "nonneg (tensor_of [1, 2, 2] [0, 1, 3, 0])"
    by code_simp
  show ?thesis using h1 h2 norm_adj_rows_sum_to_one [OF h1 h2] by blast
qed


section \<open>The blend coefficient at hop 1\<close>

text \<open>
  Whatever \<open>beta\<close> the caller passes, the state of hop 1 is computed by the layer with
  its default coefficient; with one hop the result does not depend on \<open>beta\<close> at all.
\<close>

lemma hop1_uses_default_beta:
  assumes "GraphConvolutionModule_hiddens self x A beta = Inr hs"
  shows "\<exists>A_tilde. GraphConvolutionModule_norm_adj A = Inr A_tilde
           \<and> InformationPropagtionLayer_forward x x A_tilde default_beta = Inr (hs ! 1)"
proof -
  from assms obtain At h1 At' where
      At: "GraphConvolutionModule_norm_adj A = Inr At"
      and h1: "InformationPropagtionLayer_forward x x At default_beta = Inr h1"
      and loop: "hop_loop self x A beta [2..<hops self + 1] (At, [x, h1]) = Inr (At', hs)"
    by (auto simp: GraphConvolutionModule_hiddens_def bind_r_eq_Inr split: prod.splits)
  have "A_tilde_at A (2 - 2) = Inr At" using At by simp
  from hop_loop_inv[OF loop _ _ this] have "take 2 hs = [x, h1]" by simp
  then have "take 2 hs ! 1 = h1" by simp
  then have "hs ! 1 = h1" by simp
  with At h1 show ?thesis by blast
qed

lemma one_hop_ignores_beta:
  "GraphConvolutionModule_hiddens (GraphConvolutionModule_init i_f o_f 1 W b) x A beta
     = GraphConvolutionModule_hiddens (GraphConvolutionModule_init i_f o_f 1 W b) x A beta'"
  by (simp add: GraphConvolutionModule_hiddens_def)

text \<open>
  C1. The claim is that the caller's \<open>beta\<close> is used at every hop, hop 1 included. One
  channel, two nodes, one hop, \<open>x = (1, 3)\<close>, the rows of \<open>A\<close> are \<open>(0, 1)\<close> and
  \<open>(0, 0)\<close>, and the caller passes \<open>beta = 1\<close>: the module's hop-1 state is
  \<open>(5/4, 3)\<close>, the blend with coefficient \<open>1/2\<close>, while the layer called with the
  caller's \<open>beta = 1\<close> on the same arguments gives \<open>(1, 3)\<close>.
\<close>

theorem hop1_blend_is_not_callers_beta:
  "map_sum id (map to_list)
     (GraphConvolutionModule_hiddens (GraphConvolutionModule_init 1 1 1 (\<lambda>_ _ _. 1) (\<lambda>_ _. 0))
        (tensor_of [1, 1, 2, 1] [1, 3]) (tensor_of [1, 2, 2] [0, 1, 0, 0]) 1)
     = Inr [[1, 3], [5 / 4, 3]]
   \<and> map_sum id to_list
       (bind_r (GraphConvolutionModule_norm_adj (tensor_of [1, 2, 2] [0, 1, 0, 0]))
          (\<lambda>A_tilde. InformationPropagtionLayer_forward (tensor_of [1, 1, 2, 1] [1, 3])
                       (tensor_of [1, 1, 2, 1] [1, 3]) A_tilde 1))
     = Inr [1, 3]"
proof -
  have "map_sum id (map to_list)
     (GraphConvolutionModule_hiddens (GraphConvolutionModule_init 1 1 1 (\<lambda>_ _ _. 1) (\<lambda>_ _. 0))
        (tensor_of [1, 1, 2, 1] [1, 3]) (tensor_of [1, 2, 2] [0, 1, 0, 0]) 1)
     = Inr [[1, 3], [5 / 4, 3]]"
    by code_simp
  moreover have "map_sum id to_list
       (bind_r (GraphConvolutionModule_norm_adj (tensor_of [1, 2, 2] [0, 1, 0, 0]))
          (\<lambda>A_tilde. InformationPropagtionLayer_forward (tensor_of [1, 1, 2, 1] [1, 3])
                       (tensor_of [1, 1, 2, 1] [1, 3]) A_tilde 1))
     = Inr [1, 3]"
    by code_simp
  ultimately show ?thesis by (rule conjI)
qed

section \<open>The matrix of the later hops\<close>

text \<open>
  C2, as the code has it. For every hop \<open>i\<close> in \<open>2..k\<close> the evolved matrix
  \<open>E = transpose(A_tilde_prev) @ A\<close> is passed to the propagation layer, which
  normalizes it: the matrix multiplied against the previous hop's state is
  \<open>norm_adj(E)\<close>, and the state of hop \<open>i\<close> is the blend of \<open>x\<close> with that product.
\<close>

theorem hops_use_renormalized_matrix:
  assumes "GraphConvolutionModule_hiddens self x A beta = Inr hs" and "2 \<le> i" and "i \<le> hops self"
  shows "\<exists>E A_i h. A_tilde_at A (i - 1) = Inr E
           \<and> InformationPropagtionLayer_norm_adj E = Inr A_i
           \<and> torch_matmul A_i (hs ! (i - 1)) = Inr h
           \<and> tensor_add (scalar_mul beta x) (scalar_mul (1 - beta) h) = Inr (hs ! i)"
  using hiddens_hops[OF assms]
  by (auto simp: InformationPropagtionLayer_forward_def bind_r_eq_Inr)

text \<open>One channel, one node, two hops, \<open>x = (1)\<close>, \<open>A = (2)\<close>, \<open>beta = 1/2\<close>.\<close>

theorem hops_use_renormalized_matrix_witness:
  "\<exists>hs. GraphConvolutionModule_hiddens (GraphConvolutionModule_init 1 1 2 (\<lambda>_ _ _. 1) (\<lambda>_ _. 0))
           (tensor_of [1, 1, 1, 1] [1]) (tensor_of [1, 1, 1] [2]) (1 / 2) = Inr hs
      \<and> (2::nat) \<le> 2 \<and> 2 \<le> hops (GraphConvolutionModule_init 1 1 2 (\<lambda>_ _ _. 1) (\<lambda>_ _. 0))
      \<and> (\<exists>E A_i h. A_tilde_at (tensor_of [1, 1, 1] [2]) (2 - 1) = Inr E
           \<and> InformationPropagtionLayer_norm_adj E = Inr A_i
           \<and> torch_matmul A_i (hs ! (2 - 1)) = Inr h
           \<and> tensor_add (scalar_mul (1 / 2) (tensor_of [1, 1, 1, 1] [1])) (scalar_mul (1 - 1 / 2) h)
               = Inr (hs ! 2))"
proof -
  have "\<exists>hs. GraphConvolutionModule_hiddens (GraphConvolutionModule_init 1 1 2 (\<lambda>_ _ _. 1) (\<lambda>_ _. 0))
           (tensor_of [1, 1, 1, 1] [1]) (tensor_of [1, 1, 1] [2]) (1 / 2) = Inr hs
         \<and> length hs = 2 + 1 \<and> (\<forall>h\<in>set hs. shape h = [1, 1, 1, 1])"
    by (rule hiddens_total) (simp_all add: tensor_of_def)
  then obtain hs where hs: "GraphConvolutionModule_hiddens (GraphConvolutionModule_init 1 1 2 (\<lambda>_ _ _. 1) (\<lambda>_ _. 0))
           (tensor_of [1, 1, 1, 1] [1]) (tensor_of [1, 1, 1] [2]) (1 / 2) = Inr hs"
    by blast
  have i: "(2::nat) \<le> 2" and k: "2 \<le> hops (GraphConvolutionModule_init 1 1 2 (\<lambda>_ _ _. 1) (\<lambda>_ _. 0))"
    by simp_all
  show ?thesis using hs i k hops_use_renormalized_matrix [OF hs i k] by blast
qed

text \<open>
  C2 as it is stated fails on the same input: the module's state of hop 2 is \<open>(1)\<close>,
  while multiplying the evolved matrix against the state of hop 1 with no further
  normalization would give \<open>(3/2)\<close>.
\<close>

theorem evolved_matrix_is_normalized_again:
  "map_sum id (\<lambda>hs. to_list (hs ! 2))
     (GraphConvolutionModule_hiddens (GraphConvolutionModule_init 1 1 2 (\<lambda>_ _ _. 1) (\<lambda>_ _. 0))
        (tensor_of [1, 1, 1, 1] [1]) (tensor_of [1, 1, 1] [2]) (1 / 2))
     = Inr [1]
   \<and> map_sum id to_list
       (bind_r (GraphConvolutionModule_hiddens (GraphConvolutionModule_init 1 1 2 (\<lambda>_ _ _. 1) (\<lambda>_ _. 0))
                  (tensor_of [1, 1, 1, 1] [1]) (tensor_of [1, 1, 1] [2]) (1 / 2))
          (\<lambda>hs. bind_r (A_tilde_at (tensor_of [1, 1, 1] [2]) 1)
             (\<lambda>E. hop_without_normalization (hs ! 1) (tensor_of [1, 1, 1, 1] [1]) E (1 / 2))))
     = Inr [3 / 2]"
proof -
  have "map_sum id (\<lambda>hs. to_list (hs ! 2))
     (GraphConvolutionModule_hiddens (GraphConvolutionModule_init 1 1 2 (\<lambda>_ _ _. 1) (\<lambda>_ _. 0))
        (tensor_of [1, 1, 1, 1] [1]) (tensor_of [1, 1, 1] [2]) (1 / 2))
     = Inr [1]"
    by code_simp
  moreover have "map_sum id to_list
       (bind_r (GraphConvolutionModule_hiddens (GraphConvolutionModule_init 1 1 2 (\<lambda>_ _ _. 1) (\<lambda>_ _. 0))
                  (tensor_of [1, 1, 1, 1] [1]) (tensor_of [1, 1, 1] [2]) (1 / 2))
          (\<lambda>hs. bind_r (A_tilde_at (tensor_of [1, 1, 1] [2]) 1)
             (\<lambda>E. hop_without_normalization (hs ! 1) (tensor_of [1, 1, 1, 1] [1]) E (1 / 2))))
     = Inr [3 / 2]"
    by code_simp
  ultimately show ?thesis by (rule conjI)
qed

section \<open>A module with no hops\<close>

text \<open>
  With \<open>k = 0\<close> the constructor sets \<^verbatim>\<open>info_select0\<close> and no \<^verbatim>\<open>gcl\<close> attribute, and
  \<^verbatim>\<open>forward\<close> looks \<^verbatim>\<open>gcl1\<close> up before anything else is done with \<open>x\<close>: the call never
  returns a tensor.
\<close>

lemma forward_without_hops:
  "GraphConvolutionModule_forward (GraphConvolutionModule_init i_f o_f 0 W b) x A beta
     = (case GraphConvolutionModule_norm_adj A of Inl e \<Rightarrow> Inl e | Inr _ \<Rightarrow> Inl AttributeError)"
  by (simp add: GraphConvolutionModule_forward_def GraphConvolutionModule_hiddens_def getattr_def gcl_init
        split: sum.splits)

text \<open>
  C3. The claim is that a module built with \<open>k = 0\<close> returns the projection of \<open>x\<close>.
  One channel, two nodes, \<open>x = (1, 3)\<close>, rows of \<open>A\<close> \<open>(0, 1)\<close> and \<open>(0, 0)\<close>: the
  forward pass raises the attribute error.
\<close>

theorem forward_k0_raises:
  "GraphConvolutionModule_forward (GraphConvolutionModule_init 1 1 0 (\<lambda>_ _ _. 1) (\<lambda>_ _. 0))
      (tensor_of [1, 1, 2, 1] [1, 3]) (tensor_of [1, 2, 2] [0, 1, 0, 0]) (1 / 2) = Inl AttributeError"
proof -
  obtain T where "GraphConvolutionModule_norm_adj (tensor_of [1, 2, 2] [0, 1, 0, 0]) = Inr T"
    using norm_adj_shape[of "tensor_of [1, 2, 2] [0, 1, 0, 0]" 2 1] by (auto simp: tensor_of_def norm_adj_same)
  then show ?thesis by (simp add: forward_without_hops)
qed

section \<open>The shape of the module's output\<close>

text \<open>
  C9, as the code has it. For at least one hop, a non-empty feature tensor \<open>x\<close> of
  shape \<open>(B, C, N, L)\<close> with \<open>C\<close> the module's \<open>out_features\<close>, and a raw adjacency of
  shape \<open>(C, N, N)\<close>, or of shape \<open>(N, N)\<close> when there is exactly one hop, the forward
  pass returns a tensor of the shape of \<open>x\<close>.
\<close>

theorem forward_keeps_shape:
  assumes "1 \<le> k" and "shape x = [B, C, N, L]" and "0 < B \<and> 0 < C \<and> 0 < N \<and> 0 < L"
      and "shape A = [C, N, N] \<or> shape A = [N, N] \<and> k = 1"
  shows "\<exists>out. GraphConvolutionModule_forward (GraphConvolutionModule_init i_f C k W b) x A beta = Inr (Some out)
           \<and> shape out = shape x"
proof -
  let ?self = "GraphConvolutionModule_init i_f C k W b"
  obtain hs where hs: "GraphConvolutionModule_hiddens ?self x A beta = Inr hs" "length hs = k + 1"
      "\<forall>h\<in>set hs. shape h = [B, C, N, L]"
    using hiddens_total[OF assms(1,2) _ assms(4), of i_f C W b beta] assms(3) by blast
  have "\<exists>t. select_loop ?self hs [0..<k + 1] None = Inr (Some t) \<and> shape t = [B, C, N, L]"
    using hs(2,3) by (intro select_loop_total) (auto simp: info_select_init)
  then show ?thesis using hs(1) assms(2) by (simp add: GraphConvolutionModule_forward_def)
qed

text \<open>One channel, two nodes, two hops.\<close>

theorem forward_keeps_shape_witness:
  "(1::nat) \<le> 2 \<and> shape (tensor_of [1, 1, 2, 1] [1, 3]) = [1, 1, 2, 1]
   \<and> ((0::nat) < 1 \<and> (0::nat) < 1 \<and> (0::nat) < 2 \<and> (0::nat) < 1)
   \<and> (shape (tensor_of [1, 2, 2] [0, 1, 0, 0]) = [1, 2, 2]
        \<or> shape (tensor_of [1, 2, 2] [0, 1, 0, 0]) = [2, 2] \<and> (2::nat) = 1)
   \<and> (\<exists>out. GraphConvolutionModule_forward (GraphConvolutionModule_init 1 1 2 (\<lambda>_ _ _. 1) (\<lambda>_ _. 0))
          (tensor_of [1, 1, 2, 1] [1, 3]) (tensor_of [1, 2, 2] [0, 1, 0, 0]) (1 / 2) = Inr (Some out)
        \<and> shape out = shape (tensor_of [1, 1, 2, 1] [1, 3]))"
  using forward_keeps_shape [of 2 "tensor_of [1, 1, 2, 1] [1, 3]" 1 1 2 1 "tensor_of [1, 2, 2] [0, 1, 0, 0]"
      1 "\<lambda>_ _ _. 1" "\<lambda>_ _. 0" "1 / 2"]
  by (simp add: tensor_of_def)

text \<open>
  C9 as it is stated fails for an adjacency matrix of rank 2 and two hops: the loop
  permutes three axes of \<^verbatim>\<open>A_tilde\<close>, which has two.
\<close>

theorem forward_rank2_two_hops_raises:
  "map_sum id (map_option to_list)
     (GraphConvolutionModule_forward (GraphConvolutionModule_init 1 1 2 (\<lambda>_ _ _. 1) (\<lambda>_ _. 0))
        (tensor_of [1, 1, 2, 1] [1, 3]) (tensor_of [2, 2] [0, 1, 0, 0]) (1 / 2)) = Inl RuntimeError"
  by code_simp

section \<open>Row sparsity\<close>

text \<open>
  C5. For a module built by the constructor with any tables and weights, in training
  or in evaluation mode, any generator state, and an index sequence of nodes of the
  table at least \<open>top_k\<close> long, the forward pass returns a square matrix, each row of
  which has at most \<open>top_k\<close> nonzero entries.
\<close>

theorem rows_have_at_most_top_k_nonzeros:
  assumes "list_all (\<lambda>j. 0 \<le> j \<and> j < int n_nodes) idx" and "tk \<le> length idx"
      and "self = (AdjConstructor_init n_nodes d al tk E1 E2 W1 b1 W2 b2)\<lparr>training := tr\<rparr>"
  shows "\<exists>M. fst (AdjConstructor_forward self g idx) = Inr M
           \<and> shape M = [length idx, length idx]
           \<and> list_all (\<lambda>c. c \<le> tk) (row_nonzeros M)"
proof -
  let ?n = "length idx"
  obtain S M t1 where M: "fst (AdjConstructor_forward self g idx) = Inr M" "shape M = [?n, ?n]"
      "\<forall>r<?n. length (t1 ! r) \<le> tk"
      "\<forall>i j. i < ?n \<and> j < ?n \<longrightarrow> (entry M [i, j] \<noteq> 0 \<longrightarrow> entry S [i, j] \<noteq> 0 \<and> j \<in> set (t1 ! i))"
    using forward_ok[OF assms, of g] by blast
  have "length (filter (\<lambda>j. entry M [i, j] \<noteq> 0) [0..<?n]) \<le> tk" if "i < ?n" for i
  proof -
    have "length (filter (\<lambda>j. entry M [i, j] \<noteq> 0) [0..<?n]) \<le> length (t1 ! i)"
      using M(4) that by (intro count_le) auto
    then show ?thesis using M(3) that by fastforce
  qed
  then have "list_all (\<lambda>c. c \<le> tk) (row_nonzeros M)"
    using M(2) by (simp add: row_nonzeros_def list_all_iff)
  with M(1,2) show ?thesis by blast
qed


text \<open>Two nodes, embeddings of dimension 1, \<open>top_k = 1\<close>, training mode.\<close>

theorem rows_have_at_most_top_k_nonzeros_witness:
  "list_all (\<lambda>j. 0 \<le> j \<and> j < int 2) [0, 1] \<and> (1::nat) \<le> length [0, 1 :: int]
   \<and> (\<exists>M. fst (AdjConstructor_forward
            ((AdjConstructor_init 2 1 3 1 (\<lambda>i c. if i = 0 then 1 else 0) (\<lambda>i c. if i = 0 then 0 else 1)
              (\<lambda>_ _. 1) (\<lambda>_. 0) (\<lambda>_ _. 1) (\<lambda>_. 0))\<lparr>training := True\<rparr>)
            (Rng 0 (\<lambda>_. 1 / 2)) [0, 1]) = Inr M
        \<and> shape M = [length [0, 1 :: int], length [0, 1 :: int]]
        \<and> list_all (\<lambda>c. c \<le> 1) (row_nonzeros M))"
proof -
  have h1: "list_all (\<lambda>j. 0 \<le> j \<and> j < int 2) [0, 1]" by simp
  have h2: "(1::nat) \<le> length [0, 1 :: int]" by simp
  show ?thesis
    using h1 h2 rows_have_at_most_top_k_nonzeros
           [where d = 1 and al = 3 and ?E1.0 = "\<lambda>i c. if i = 0 then 1 else 0" and ?E2.0 = "\<lambda>i c. if i = 0 then 0 else 1"
            and ?W1.0 = "\<lambda>_ _. 1" and ?b1.0 = "\<lambda>_. 0" and ?W2.0 = "\<lambda>_ _. 1" and ?b2.0 = "\<lambda>_. 0"
            and tr = True and g = "Rng 0 (\<lambda>_. 1 / 2)", OF h1 h2 refl]
    by blast
qed

section \<open>One direction per pair of nodes\<close>

text \<open>
  C6. Under the same conditions the score matrix before masking is the ReLU of an
  antisymmetric matrix; its diagonal is zero and of the entries \<open>(i, j)\<close> and
  \<open>(j, i)\<close> at most one is nonzero; the same holds for the masked output.
\<close>

theorem scores_one_direction_per_pair:
  assumes "list_all (\<lambda>j. 0 \<le> j \<and> j < int n_nodes) idx" and "tk \<le> length idx"
      and "self = (AdjConstructor_init n_nodes d al tk E1 E2 W1 b1 W2 b2)\<lparr>training := tr\<rparr>"
  shows "\<exists>D M. antisymmetric D \<and> AdjConstructor_scores self idx = Inr (torch_relu D)
           \<and> one_direction (torch_relu D)
           \<and> fst (AdjConstructor_forward self g idx) = Inr M \<and> one_direction M"
proof -
  let ?n = "length idx"
  obtain D where D: "shape D = [?n, ?n]"
      "\<And>i j. i < ?n \<Longrightarrow> j < ?n \<Longrightarrow> entry D [j, i] = - entry D [i, j]"
      "AdjConstructor_scores self idx = Inr (torch_relu D)"
    using scores_ok[OF assms(1,3)] by blast
  note rd = relu_one_direction[OF D(1,2)]
  obtain S M t1 where M: "AdjConstructor_scores self idx = Inr S"
      "fst (AdjConstructor_forward self g idx) = Inr M" "shape M = [?n, ?n]"
      "\<forall>i j. i < ?n \<and> j < ?n \<longrightarrow> (entry M [i, j] \<noteq> 0 \<longrightarrow> entry S [i, j] \<noteq> 0 \<and> j \<in> set (t1 ! i))"
    using forward_ok[OF assms, of g] by blast
  have S: "S = torch_relu D" using M(1) D(3) by simp
  have z: "entry M [i, j] = 0" if "i < ?n" "j < ?n" "entry S [i, j] = 0" for i j
    using M(4) that by blast
  have od: "entry S [i, j] = 0 \<or> entry S [j, i] = 0" if "i < ?n" "j < ?n" for i j
    using rd(2) that D(1) unfolding S by (simp add: one_direction_def list_all_iff torch_relu_def tensor_map_def)
  have dg: "entry M [i, i] = 0" if "i < ?n" for i
    using od[OF that that] z[OF that that] by blast
  have pr: "entry M [i, j] = 0 \<or> entry M [j, i] = 0" if "i < ?n" "j < ?n" for i j
    using od[OF that] z[OF that] z[OF that(2,1)] by blast
  have "one_direction M"
    using M(3) dg pr by (simp add: one_direction_def list_all_iff)
  with rd D(3) M(2) show ?thesis by blast
qed


text \<open>Two nodes, embeddings of dimension 1, \<open>top_k = 1\<close>, evaluation mode.\<close>

theorem scores_one_direction_per_pair_witness:
  "list_all (\<lambda>j. 0 \<le> j \<and> j < int 2) [0, 1] \<and> (1::nat) \<le> length [0, 1 :: int]
   \<and> (\<exists>D M. antisymmetric D
        \<and> AdjConstructor_scores
            ((AdjConstructor_init 2 1 3 1 (\<lambda>i c. if i = 0 then 1 else 0) (\<lambda>i c. if i = 0 then 0 else 1)
              (\<lambda>_ _. 1) (\<lambda>_. 0) (\<lambda>_ _. 1) (\<lambda>_. 0))\<lparr>training := False\<rparr>)
            [0, 1] = Inr (torch_relu D)
        \<and> one_direction (torch_relu D)
        \<and> fst (AdjConstructor_forward
            ((AdjConstructor_init 2 1 3 1 (\<lambda>i c. if i = 0 then 1 else 0) (\<lambda>i c. if i = 0 then 0 else 1)
              (\<lambda>_ _. 1) (\<lambda>_. 0) (\<lambda>_ _. 1) (\<lambda>_. 0))\<lparr>training := False\<rparr>)
            (Rng 0 (\<lambda>_. 1 / 2)) [0, 1]) = Inr M
        \<and> one_direction M)"
proof -
  have h1: "list_all (\<lambda>j. 0 \<le> j \<and> j < int 2) [0, 1]" by simp
  have h2: "(1::nat) \<le> length [0, 1 :: int]" by simp
  show ?thesis
    using h1 h2 scores_one_direction_per_pair
           [where d = 1 and al = 3 and ?E1.0 = "\<lambda>i c. if i = 0 then 1 else 0" and ?E2.0 = "\<lambda>i c. if i = 0 then 0 else 1"
            and ?W1.0 = "\<lambda>_ _. 1" and ?b1.0 = "\<lambda>_. 0" and ?W2.0 = "\<lambda>_ _. 1" and ?b2.0 = "\<lambda>_. 0"
            and tr = False and g = "Rng 0 (\<lambda>_. 1 / 2)", OF h1 h2 refl]
    by blast
qed

section \<open>Evaluation mode\<close>

text \<open>
  C7. With the training flag off, the forward pass neither reads nor advances the
  random number generator: the result is the same for every generator state, and the
  state comes back unchanged. Two calls with the same parameters and the same
  indices therefore return the same matrix.
\<close>

theorem eval_mode_is_deterministic:
  assumes "\<not> training self"
  shows "AdjConstructor_forward self g idx = (fst (AdjConstructor_forward self g' idx), g)"
  using assms by (simp add: AdjConstructor_forward_def split: sum.splits)

text \<open>Two nodes, two different generator states.\<close>

theorem eval_mode_is_deterministic_witness:
  "\<not> training (eval_mode (AdjConstructor_init 2 1 3 1 (\<lambda>i c. if i = 0 then 1 else 0)
        (\<lambda>i c. if i = 0 then 0 else 1) (\<lambda>_ _. 1) (\<lambda>_. 0) (\<lambda>_ _. 1) (\<lambda>_. 0)))
   \<and> AdjConstructor_forward (eval_mode (AdjConstructor_init 2 1 3 1 (\<lambda>i c. if i = 0 then 1 else 0)
        (\<lambda>i c. if i = 0 then 0 else 1) (\<lambda>_ _. 1) (\<lambda>_. 0) (\<lambda>_ _. 1) (\<lambda>_. 0)))
        (Rng 0 (\<lambda>_. 1 / 2)) [0, 1]
     = (fst (AdjConstructor_forward (eval_mode (AdjConstructor_init 2 1 3 1 (\<lambda>i c. if i = 0 then 1 else 0)
        (\<lambda>i c. if i = 0 then 0 else 1) (\<lambda>_ _. 1) (\<lambda>_. 0) (\<lambda>_ _. 1) (\<lambda>_. 0)))
        (Rng 7 (\<lambda>_. 1 / 4)) [0, 1]), Rng 0 (\<lambda>_. 1 / 2))"
proof -
  have h: "\<not> training (eval_mode (AdjConstructor_init 2 1 3 1 (\<lambda>i c. if i = 0 then 1 else 0)
        (\<lambda>i c. if i = 0 then 0 else 1) (\<lambda>_ _. 1) (\<lambda>_. 0) (\<lambda>_ _. 1) (\<lambda>_. 0)))"
    by (simp add: eval_mode_def)
  show ?thesis using h eval_mode_is_deterministic [OF h] by blast
qed

section \<open>The propagation layer at the ends of the blend\<close>

text \<open>
  C8. For a feature tensor \<open>x\<close> and a prior state \<open>h_in\<close> of the same shape
  \<open>(B, C, N, L)\<close> and a nonnegative square adjacency \<open>A\<close> of shape \<open>(N, N)\<close> or
  \<open>(C, N, N)\<close>, the forward pass of the propagation layer returns exactly \<open>h_in\<close>
  when \<open>beta = 1\<close>, and exactly the propagated term \<open>norm_adj(A) @ x\<close> when
  \<open>beta = 0\<close>. The entries of \<open>A\<close> being nonnegative, every divisor of the
  normalization is at least 1.
\<close>

theorem beta_boundary:
  assumes "shape A = [N, N] \<or> shape A = [C, N, N] \<and> 0 < C"
      and "shape x = [B, C, N, L]" and "shape h_in = [B, C, N, L]"
      and "nonneg A"
  shows "result_eq (InformationPropagtionLayer_forward x h_in A 1) (Inr h_in)
       \<and> result_eq (InformationPropagtionLayer_forward x h_in A 0)
           (bind_r (InformationPropagtionLayer_norm_adj A) (\<lambda>A_i. torch_matmul A_i x))"
proof -
  obtain T h where Th: "InformationPropagtionLayer_norm_adj A = Inr T" "torch_matmul T x = Inr h"
      "shape h = [B, C, N, L]"
    using propagate_shape[OF assms(1,2)] by auto
  obtain o1 where o1: "tensor_add (scalar_mul 1 h_in) (scalar_mul (1 - 1) h) = Inr o1"
      "shape o1 = [B, C, N, L]"
      "to_list o1 = map (\<lambda>i. 1 * entry h_in i + (1 - 1) * entry h i) (indices [B, C, N, L])"
    using blend_same_shape[OF assms(3) Th(3)] by blast
  obtain o0 where o0: "tensor_add (scalar_mul 0 h_in) (scalar_mul (1 - 0) h) = Inr o0"
      "shape o0 = [B, C, N, L]"
      "to_list o0 = map (\<lambda>i. 0 * entry h_in i + (1 - 0) * entry h i) (indices [B, C, N, L])"
    using blend_same_shape[OF assms(3) Th(3)] by blast
  have "tensor_eq o1 h_in"
    unfolding tensor_eq_def o1(2,3) assms(3) by (simp add: to_list_def assms(3))
  moreover have "tensor_eq o0 h"
    unfolding tensor_eq_def o0(2,3) Th(3) by (simp add: to_list_def Th(3))
  ultimately show ?thesis
    using Th(1,2) o1(1) o0(1) by (simp add: InformationPropagtionLayer_forward_def result_eq_def)
qed

text \<open>One channel, two nodes: \<open>x = (1, 3)\<close>, \<open>h_in = (5, 7)\<close>, rows of \<open>A\<close> \<open>(0, 1)\<close> and \<open>(3, 0)\<close>.\<close>

theorem beta_boundary_witness:
  "(shape (tensor_of [1, 2, 2] [0, 1, 3, 0]) = [2, 2]
      \<or> shape (tensor_of [1, 2, 2] [0, 1, 3, 0]) = [1, 2, 2] \<and> (0::nat) < 1)
   \<and> shape (tensor_of [1, 1, 2, 1] [1, 3]) = [1, 1, 2, 1]
   \<and> shape (tensor_of [1, 1, 2, 1] [5, 7]) = [1, 1, 2, 1]
   \<and> nonneg (tensor_of [1, 2, 2] [0, 1, 3, 0])
   \<and> result_eq (InformationPropagtionLayer_forward (tensor_of [1, 1, 2, 1] [1, 3])
        (tensor_of [1, 1, 2, 1] [5, 7]) (tensor_of [1, 2, 2] [0, 1, 3, 0]) 1)
        (Inr (tensor_of [1, 1, 2, 1] [5, 7]))
   \<and> result_eq (InformationPropagtionLayer_forward (tensor_of [1, 1, 2, 1] [1, 3])
        (tensor_of [1, 1, 2, 1] [5, 7]) (tensor_of [1, 2, 2] [0, 1, 3, 0]) 0)
        (bind_r (InformationPropagtionLayer_norm_adj (tensor_of [1, 2, 2] [0, 1, 3, 0]))
           (\<lambda>A_i. torch_matmul A_i (tensor_of [1, 1, 2, 1] [1, 3])))"
proof -
  have h1: "shape (tensor_of [1, 2, 2] [0, 1, 3, 0]) = [2, 2]
      \<or> shape (tensor_of [1, 2, 2] [0, 1, 3, 0]) = [1, 2, 2] \<and> (0::nat) < 1"
    by (simp add: tensor_of_def)
  have h2: "shape (tensor_of [1, 1, 2, 1] [1, 3]) = [1, 1, 2, 1]"
    by (simp add: tensor_of_def)
  have h3: "shape (tensor_of [1, 1, 2, 1] [5, 7]) = [1, 1, 2, 1]"
    by (simp add: tensor_of_def)
  have h4: "nonneg (tensor_of [1, 2, 2] [0, 1, 3, 0])"
    by code_simp
  show ?thesis using h1 h2 h3 h4 beta_boundary [OF h1 h2 h3 h4] by blast
qed

section \<open>The rank check\<close>

text \<open>
  C10. Both copies of \<^verbatim>\<open>norm_adj\<close>, and the forward pass of the propagation layer,
  raise the assertion error exactly when the adjacency matrix has a rank other than 2
  or 3; the forward pass of the graph convolution module raises it whenever the rank
  is other than 2 or 3.
\<close>

theorem norm_adj_rank_check:
  "(InformationPropagtionLayer_norm_adj A = Inl AssertionError) = (length (shape A) \<noteq> 2 \<and> length (shape A) \<noteq> 3)
   \<and> (GraphConvolutionModule_norm_adj A = Inl AssertionError) = (length (shape A) \<noteq> 2 \<and> length (shape A) \<noteq> 3)
   \<and> (InformationPropagtionLayer_forward x h_in A beta = Inl AssertionError)
        = (length (shape A) \<noteq> 2 \<and> length (shape A) \<noteq> 3)
   \<and> (length (shape A) \<noteq> 2 \<and> length (shape A) \<noteq> 3
        \<longrightarrow> GraphConvolutionModule_forward self x A beta = Inl AssertionError)"
proof -
  have 1: "(InformationPropagtionLayer_forward x h_in A beta = Inl AssertionError)
        = (InformationPropagtionLayer_norm_adj A = Inl AssertionError)"
    by (auto simp: InformationPropagtionLayer_forward_def bind_r_eq_Inl tensor_add_def binop_not_assert matmul_not_assert)
  have 2: "InformationPropagtionLayer_norm_adj A = Inl AssertionError
      \<Longrightarrow> GraphConvolutionModule_forward self x A beta = Inl AssertionError"
    by (simp add: GraphConvolutionModule_forward_def GraphConvolutionModule_hiddens_def norm_adj_same)
  show ?thesis using 1 2 by (simp add: norm_adj_AssertionError_iff norm_adj_same)
qed

text \<open>An adjacency "matrix" of rank 1.\<close>

theorem norm_adj_rank_check_witness:
  "length (shape (tensor_of [2] [0, 1])) \<noteq> 2 \<and> length (shape (tensor_of [2] [0, 1])) \<noteq> 3
   \<and> GraphConvolutionModule_forward (GraphConvolutionModule_init 1 1 1 (\<lambda>_ _ _. 1) (\<lambda>_ _. 0))
        (tensor_of [1, 1, 2, 1] [1, 3]) (tensor_of [2] [0, 1]) (1 / 2) = Inl AssertionError"
  using norm_adj_rank_check [of "tensor_of [2] [0, 1]" "tensor_of [1, 1, 2, 1] [1, 3]" "tensor_of [1, 1, 2, 1] [1, 3]" "1 / 2"
      "GraphConvolutionModule_init 1 1 1 (\<lambda>_ _ _. 1) (\<lambda>_ _. 0)"]
  by (simp add: tensor_of_def)


end
